theory Spec2Isabelle
  imports Main "HOL-Library.Word" "HOL-Library.Signed_Division"
begin

unbundle bit_operations_syntax

section \<open>Record ids and the key codec\<close>

type_synonym byte = "8 word"
type_synonym bytes = "byte list"

text \<open>
  Modelled from the spec: class \<open>RecordId\<close> (its header, mongo/db/record_id.h, is not among
  the sources). A record id is a signed 64-bit integer, compared numerically; the null id is
  0; \<open>RecordId::min()\<close> and \<open>RecordId::max()\<close> are the two extreme sentinels.
  The representation is a 64-bit word; every comparison reads it as two's complement.
\<close>

datatype RecordId = RecordId (repr: "64 word")

definition rid_less :: "RecordId \<Rightarrow> RecordId \<Rightarrow> bool" where
  "rid_less a b = (repr a <s repr b)"

definition rid_le :: "RecordId \<Rightarrow> RecordId \<Rightarrow> bool" where
  "rid_le a b = (repr a \<le>s repr b)"

definition isNull :: "RecordId \<Rightarrow> bool" where
  "isNull a = (repr a = 0)"

definition RecordId_null :: RecordId where
  "RecordId_null = RecordId 0"

definition RecordId_min :: RecordId where
  "RecordId_min = RecordId (- 9223372036854775808)"

definition RecordId_max :: RecordId where
  "RecordId_max = RecordId 9223372036854775807"

text \<open>
  \<open>endian::nativeToBig\<close> followed by the reinterpretation of the 64-bit value as eight
  chars: the most significant byte comes first.
\<close>

definition nativeToBig :: "64 word \<Rightarrow> bytes" where
  "nativeToBig w =
     [ucast (drop_bit 56 w), ucast (drop_bit 48 w), ucast (drop_bit 40 w), ucast (drop_bit 32 w),
      ucast (drop_bit 24 w), ucast (drop_bit 16 w), ucast (drop_bit 8 w), ucast w]"

text \<open>\<open>endian::bigToNative\<close> of the eight chars read as one 64-bit value.\<close>

definition bigToNative :: "bytes \<Rightarrow> 64 word" where
  "bigToNative bs = foldl (\<lambda>acc b. acc * 256 + ucast b) 0 bs"

text \<open>\<open>RocksRecordStore::_makeKey\<close>: the eight big-endian bytes of \<open>loc.repr()\<close>.\<close>

definition makeKey :: "RecordId \<Rightarrow> bytes" where
  "makeKey loc = nativeToBig (repr loc)"

text \<open>\<open>RocksRecordStore::_makePrefixedKey\<close>: the prefix followed by the encoded id.\<close>

definition makePrefixedKey :: "bytes \<Rightarrow> RecordId \<Rightarrow> bytes" where
  "makePrefixedKey prefix loc = prefix @ makeKey loc"

text \<open>
  \<open>RocksRecordStore::_makeRecordId\<close>: \<open>invariant(slice.size() == sizeof(int64_t))\<close>, then
  the big-endian value. \<open>None\<close> is the failed invariant (the process aborts).
\<close>

definition makeRecordId :: "bytes \<Rightarrow> RecordId option" where
  "makeRecordId sl = (if length sl \<noteq> 8 then None else Some (RecordId (bigToNative sl)))"

text \<open>
  The order of the engine on keys, which the spec calls lexicographic: bytes compare as
  unsigned chars, and a proper prefix is smaller.
\<close>

fun bytes_less :: "bytes \<Rightarrow> bytes \<Rightarrow> bool" where
  "bytes_less [] [] = False"
| "bytes_less [] (y # ys) = True"
| "bytes_less (x # xs) [] = False"
| "bytes_less (x # xs) (y # ys) = (x < y \<or> (x = y \<and> bytes_less xs ys))"

text \<open>
  The digits of a number in base 256, most significant first, on \<open>k\<close> places; the
  eight bytes of \<open>nativeToBig\<close> are the eight digits of the unsigned value.
\<close>

fun be_digits :: "nat \<Rightarrow> nat \<Rightarrow> bytes" where
  "be_digits 0 n = []"
| "be_digits (Suc k) n = be_digits k (n div 256) @ [of_nat n]"


section \<open>Errors\<close>

text \<open>
  What a call can end with besides its value: the two statuses the record store produces
  itself, a status handed back by a collaborator (\<open>oploghack\<close>, the capped callback), and
  the abort of the process by a failed \<open>invariant\<close>, \<open>dassert\<close> or
  \<open>invariantRocksOK\<close>.
\<close>

datatype error =
    BadValue
  | WriteConflictException
  | OtherStatus nat
  | Aborted

section \<open>The engine and the recovery unit, as the store uses them\<close>

text \<open>
  Modelled from the spec: the engine's write batches, point reads and prefix-scoped
  iterators, and the per-operation recovery unit (their classes are not among the sources).
  A write batch is the list of the operations staged in it, oldest first.
\<close>

datatype batch_op = Put bytes bytes | Delete bytes

datatype get_status = GetOK bytes | GetNotFound | GetFailed

text \<open>
  An iterator scoped to a prefix ranges over the entries under that prefix in the order of
  the engine, the prefix cut off each key (the store compares \<open>key()\<close> with the result of
  \<open>_makeKey\<close> and decodes it with \<open>_makeRecordId\<close>). It is valid when it stands on
  an entry.
\<close>

record RocksIterator =
  it_entries :: "(bytes \<times> bytes) list"
  it_position :: "nat option"
  it_status_ok :: bool

definition it_current :: "RocksIterator \<Rightarrow> (bytes \<times> bytes) option" where
  "it_current it =
     (case it_position it of
        None \<Rightarrow> None
      | Some p \<Rightarrow> if p < length (it_entries it) then Some (it_entries it ! p) else None)"

definition Valid :: "RocksIterator \<Rightarrow> bool" where
  "Valid it = (it_current it \<noteq> None)"

definition SeekToFirst :: "RocksIterator \<Rightarrow> RocksIterator" where
  "SeekToFirst it = it\<lparr> it_position := (if it_entries it = [] then None else Some 0) \<rparr>"

definition SeekToLast :: "RocksIterator \<Rightarrow> RocksIterator" where
  "SeekToLast it =
     it\<lparr> it_position := (if it_entries it = [] then None else Some (length (it_entries it) - 1)) \<rparr>"

text \<open>\<open>Seek(target)\<close> lands on the first entry whose key is not below the target.\<close>

definition Seek :: "RocksIterator \<Rightarrow> bytes \<Rightarrow> RocksIterator" where
  "Seek it target =
     (let p = length (takeWhile (\<lambda>e. bytes_less (fst e) target) (it_entries it))
      in it\<lparr> it_position := (if p < length (it_entries it) then Some p else None) \<rparr>)"

definition Next :: "RocksIterator \<Rightarrow> RocksIterator" where
  "Next it =
     (case it_position it of
        None \<Rightarrow> it
      | Some p \<Rightarrow> it\<lparr> it_position := (if p + 1 < length (it_entries it) then Some (p + 1) else None) \<rparr>)"

definition Prev :: "RocksIterator \<Rightarrow> RocksIterator" where
  "Prev it =
     (case it_position it of
        None \<Rightarrow> it
      | Some p \<Rightarrow> it\<lparr> it_position := (if p = 0 then None else Some (p - 1)) \<rparr>)"

text \<open>
  The recovery unit of an operation: its write batch, its two counter deltas (the entries of
  the delta map under \<open>_dataSizeKey\<close> and \<open>_numRecordsKey\<close>), the registered
  \<open>CappedInsertChange\<close> objects (each by the id its iterator points at), the oplog read
  ceiling, whether a snapshot is open, and what its reads return: \<open>Get\<close> for a key and
  the entries and status of \<open>NewIterator\<close> for a prefix.
\<close>

record RocksRecoveryUnit =
  ru_writeBatch :: "batch_op list"
  ru_deltaDataSize :: int
  ru_deltaNumRecords :: int
  ru_changes :: "RecordId list"
  ru_oplogReadTill :: RecordId
  ru_hasSnapshot :: bool
  ru_Get :: "bytes \<Rightarrow> get_status"
  ru_entries :: "bytes \<Rightarrow> (bytes \<times> bytes) list"
  ru_iterator_ok :: bool

definition NewIterator :: "RocksRecoveryUnit \<Rightarrow> bytes \<Rightarrow> RocksIterator" where
  "NewIterator ru pfx =
     \<lparr> it_entries = ru_entries ru pfx, it_position = None, it_status_ok = ru_iterator_ok ru \<rparr>"

section \<open>CappedVisibilityManager\<close>

text \<open>
  The two condition variables and the capped callback are seen through the calls made on
  them: every notification is appended to a log kept beside the manager's fields.
\<close>

datatype notification =
    OpsWaitingForJournalCV_notify_one
  | OpsBecameVisibleCV_notify_all
  | NotifyCappedWaitersIfNeeded

text \<open>
  \<open>_uncommittedRecords\<close> is a \<open>std::list\<close> of record ids (\<open>SortedRecordIds\<close>), oldest
  first. An iterator into it is represented by the id it points at; the ids of the list are
  pairwise different as long as each id is registered above the last one, which the spec
  requires. \<open>_opsWaitingForJournal\<close> is the vector of such iterators.
\<close>

record CappedVisibilityManager =
  uncommittedRecords :: "RecordId list"
  oplog_highestSeen :: RecordId
  opsWaitingForJournal :: "RecordId list"
  cvm_shuttingDown :: bool
  notifications :: "notification list"

text \<open>The constructor (the journal thread it starts for an oplog is not a field).\<close>

definition CappedVisibilityManager_new :: CappedVisibilityManager where
  "CappedVisibilityManager_new =
     \<lparr> uncommittedRecords = [], oplog_highestSeen = RecordId_min, opsWaitingForJournal = [],
       cvm_shuttingDown = False, notifications = [] \<rparr>"

text \<open>
  \<open>_addUncommittedRecord_inlock\<close>. The \<open>dassert\<close> is kept as a branch, as a debug
  build runs it: it aborts when the new id is not above the last uncommitted one. (A release
  build compiles the check out and appends the id in any case; the results that depend on
  the order of the ids state that order as a hypothesis.)
\<close>

definition addUncommittedRecord_inlock ::
  "CappedVisibilityManager \<Rightarrow> RocksRecoveryUnit \<Rightarrow> RecordId \<Rightarrow>
     error + (CappedVisibilityManager \<times> RocksRecoveryUnit)" where
  "addUncommittedRecord_inlock m ru record =
     (if \<not> (uncommittedRecords m = [] \<or> rid_less (last (uncommittedRecords m)) record)
      then Inl Aborted
      else Inr (m\<lparr> uncommittedRecords := uncommittedRecords m @ [record],
                   oplog_highestSeen := record \<rparr>,
                ru\<lparr> ru_changes := ru_changes ru @ [record] \<rparr>))"

definition addUncommittedRecord ::
  "CappedVisibilityManager \<Rightarrow> RocksRecoveryUnit \<Rightarrow> RecordId \<Rightarrow>
     error + (CappedVisibilityManager \<times> RocksRecoveryUnit)" where
  "addUncommittedRecord m ru record = addUncommittedRecord_inlock m ru record"

text \<open>
  \<open>getNextAndAddUncommittedRecord\<close>: the id comes from the callback \<open>nextId\<close>, given here
  by its result.
\<close>

definition getNextAndAddUncommittedRecord ::
  "CappedVisibilityManager \<Rightarrow> RocksRecoveryUnit \<Rightarrow> RecordId \<Rightarrow>
     error + (RecordId \<times> CappedVisibilityManager \<times> RocksRecoveryUnit)" where
  "getNextAndAddUncommittedRecord m ru record =
     (case addUncommittedRecord_inlock m ru record of
        Inl e \<Rightarrow> Inl e
      | Inr (m', ru') \<Rightarrow> Inr (record, m', ru'))"

text \<open>\<open>isCappedHidden\<close>.\<close>

definition isCappedHidden :: "CappedVisibilityManager \<Rightarrow> RecordId \<Rightarrow> bool" where
  "isCappedHidden m record =
     (case uncommittedRecords m of
        [] \<Rightarrow> False
      | front # _ \<Rightarrow> rid_le front record)"

text \<open>\<open>updateHighestSeen\<close> (the test is made twice, without and with the mutex).\<close>

definition updateHighestSeen :: "CappedVisibilityManager \<Rightarrow> RecordId \<Rightarrow> CappedVisibilityManager" where
  "updateHighestSeen m record =
     (if rid_less (oplog_highestSeen m) record
      then (if rid_less (oplog_highestSeen m) record
            then m\<lparr> oplog_highestSeen := record \<rparr> else m)
      else m)"

definition setHighestSeen :: "CappedVisibilityManager \<Rightarrow> RecordId \<Rightarrow> CappedVisibilityManager" where
  "setHighestSeen m record = m\<lparr> oplog_highestSeen := record \<rparr>"


definition lowestCappedHiddenRecord :: "CappedVisibilityManager \<Rightarrow> RecordId" where
  "lowestCappedHiddenRecord m =
     (case uncommittedRecords m of
        [] \<Rightarrow> RecordId_null
      | front # _ \<Rightarrow> front)"

text \<open>
  \<open>dealtWithCappedRecord(it, didCommit)\<close>; the first argument is \<open>_rs->_isOplog\<close>.
  Erasing through an iterator removes the one element it points at.
\<close>

definition dealtWithCappedRecord ::
  "bool \<Rightarrow> CappedVisibilityManager \<Rightarrow> RecordId \<Rightarrow> bool \<Rightarrow> CappedVisibilityManager" where
  "dealtWithCappedRecord isOplog m it didCommit =
     (if didCommit \<and> isOplog \<and> it \<noteq> oplog_highestSeen m
      then (let wasEmpty = (opsWaitingForJournal m = []);
                m1 = m\<lparr> opsWaitingForJournal := opsWaitingForJournal m @ [it] \<rparr>
            in if wasEmpty
               then m1\<lparr> notifications := notifications m1 @ [OpsWaitingForJournalCV_notify_one] \<rparr>
               else m1)
      else m\<lparr> uncommittedRecords := remove1 it (uncommittedRecords m),
               notifications := notifications m @ [OpsBecameVisibleCV_notify_all] \<rparr>)"

text \<open>
  \<open>CappedInsertChange::commit\<close> and \<open>CappedInsertChange::rollback\<close>; \<open>hasCallback\<close> says
  whether \<open>_rs->_cappedCallback\<close> is set.
\<close>

definition CappedInsertChange_commit ::
  "bool \<Rightarrow> CappedVisibilityManager \<Rightarrow> RecordId \<Rightarrow> CappedVisibilityManager" where
  "CappedInsertChange_commit isOplog m it = dealtWithCappedRecord isOplog m it True"

definition CappedInsertChange_rollback ::
  "bool \<Rightarrow> bool \<Rightarrow> CappedVisibilityManager \<Rightarrow> RecordId \<Rightarrow> CappedVisibilityManager" where
  "CappedInsertChange_rollback isOplog hasCallback m it =
     (let m1 = dealtWithCappedRecord isOplog m it False
      in if hasCallback
         then m1\<lparr> notifications := notifications m1 @ [NotifyCappedWaitersIfNeeded] \<rparr>
         else m1)"

text \<open>
  One turn of \<open>oplogJournalThreadLoop\<close>, in its two critical sections. In the first the
  thread waits until the manager shuts down or some operation waits for the journal; at
  shutdown it leaves the loop, otherwise it swaps the waiting operations out. The second,
  entered after \<open>waitUntilDurable\<close>, erases them and tells the waiters.
\<close>

datatype journal_turn =
    JournalWaits
  | JournalExits
  | JournalTakes "RecordId list" CappedVisibilityManager

definition journal_take :: "CappedVisibilityManager \<Rightarrow> journal_turn" where
  "journal_take m =
     (if \<not> (cvm_shuttingDown m \<or> opsWaitingForJournal m \<noteq> []) then JournalWaits
      else if cvm_shuttingDown m then JournalExits
      else JournalTakes (opsWaitingForJournal m) (m\<lparr> opsWaitingForJournal := [] \<rparr>))"

definition journal_publish ::
  "bool \<Rightarrow> RecordId list \<Rightarrow> CappedVisibilityManager \<Rightarrow> CappedVisibilityManager" where
  "journal_publish hasCallback opsAboutToBeJournaled m =
     (let m1 = m\<lparr> uncommittedRecords := fold remove1 opsAboutToBeJournaled (uncommittedRecords m),
                   notifications := notifications m @ [OpsBecameVisibleCV_notify_all] \<rparr>
      in if hasCallback
         then m1\<lparr> notifications := notifications m1 @ [NotifyCappedWaitersIfNeeded] \<rparr>
         else m1)"

text \<open>
  Modelled from the spec: \<open>OperationContext::waitForConditionOrInterrupt\<close> (not among the
  sources) waits on the condition variable until the predicate holds and respects the
  interruption of the operation. The waiter tests the predicate on entry and again at each
  wake-up, on the state the manager has then; the list gives what happens to the waiter,
  in order. When the list ends with the predicate still false, the waiter is still blocked.
\<close>

datatype wait_event = WakeUp CappedVisibilityManager | Interrupt

datatype wait_result = Returned CappedVisibilityManager | Interrupted | Blocked

fun waitForConditionOrInterrupt ::
  "(CappedVisibilityManager \<Rightarrow> bool) \<Rightarrow> CappedVisibilityManager \<Rightarrow> wait_event list \<Rightarrow> wait_result" where
  "waitForConditionOrInterrupt pred m [] = (if pred m then Returned m else Blocked)"
| "waitForConditionOrInterrupt pred m (Interrupt # rest) =
     (if pred m then Returned m else Interrupted)"
| "waitForConditionOrInterrupt pred m (WakeUp m' # rest) =
     (if pred m then Returned m else waitForConditionOrInterrupt pred m' rest)"

text \<open>
  \<open>waitForAllEarlierOplogWritesToBeVisible\<close>. The two booleans are
  \<open>opCtx->lockState()->isNoop()\<close> and \<open>inAWriteUnitOfWork()\<close> of the entry invariant.
\<close>

definition waitForAllEarlierOplogWritesToBeVisible ::
  "bool \<Rightarrow> bool \<Rightarrow> CappedVisibilityManager \<Rightarrow> wait_event list \<Rightarrow> error + wait_result" where
  "waitForAllEarlierOplogWritesToBeVisible lockIsNoop inAWriteUnitOfWork m evs =
     (if \<not> (lockIsNoop \<or> \<not> inAWriteUnitOfWork) then Inl Aborted
      else (let waitingFor = oplog_highestSeen m
            in Inr (waitForConditionOrInterrupt
                      (\<lambda>now. case uncommittedRecords now of
                                [] \<Rightarrow> True
                              | front # _ \<Rightarrow> rid_less waitingFor front)
                      m evs)))"


section \<open>RocksOplogKeyTracker\<close>

text \<open>
  The tracker keeps, under its own prefix, the length of every oplog record as four
  little-endian bytes. \<open>insertKey\<close> and \<open>deleteKey\<close> give the operation they stage;
  the count of deleted keys, read only when compactions are scheduled, is not kept.
\<close>

definition nativeToLittle32 :: "32 word \<Rightarrow> bytes" where
  "nativeToLittle32 w = [ucast w, ucast (drop_bit 8 w), ucast (drop_bit 16 w), ucast (drop_bit 24 w)]"

definition littleToNative32 :: "bytes \<Rightarrow> 32 word" where
  "littleToNative32 bs = foldr (\<lambda>b acc. acc * 256 + ucast b) (take 4 bs) 0"

definition insertKey :: "bytes \<Rightarrow> RecordId \<Rightarrow> int \<Rightarrow> batch_op" where
  "insertKey trackerPrefix loc len =
     Put (makePrefixedKey trackerPrefix loc) (nativeToLittle32 (word_of_int len))"

definition deleteKey :: "bytes \<Rightarrow> RecordId \<Rightarrow> batch_op" where
  "deleteKey trackerPrefix loc = Delete (makePrefixedKey trackerPrefix loc)"

definition decodeSize :: "bytes \<Rightarrow> int" where
  "decodeSize v = sint (littleToNative32 v)"

section \<open>RocksRecordStore\<close>

text \<open>
  The fields of the store that its operations read or write. The two counters are the
  64-bit atomics \<open>_numRecords\<close> and \<open>_dataSize\<close>, held as integers: they count records
  and bytes that exist. \<open>rs_cappedCallback\<close> says whether a callback is installed,
  \<open>rs_oplogKeyTracker\<close> is the prefix of the tracker (which exists for an oplog only),
  and \<open>rs_db\<close> lists what the store's own sub-transactions have committed to the engine.
\<close>

record RocksRecordStore =
  rs_prefix :: bytes
  rs_isCapped :: bool
  rs_cappedMaxSize :: int
  rs_cappedMaxSizeSlack :: int
  rs_cappedMaxDocs :: int
  rs_cappedCallback :: bool
  rs_isOplog :: bool
  rs_oplogKeyTracker :: bytes
  rs_cappedOldestKeyHint :: RecordId
  rs_cappedVisibilityManager :: "CappedVisibilityManager option"
  rs_nextIdNum :: "64 word"
  rs_numRecords :: int
  rs_dataSize :: int
  rs_shuttingDown :: bool
  rs_hasBackgroundThread :: bool
  rs_db :: "batch_op list"

text \<open>\<open>cappedMaxSizeSlackFromSize\<close>; the division of C++ truncates towards zero.\<close>

definition cappedMaxSizeSlackFromSize :: "int \<Rightarrow> int" where
  "cappedMaxSizeSlackFromSize cappedMaxSize = min (cappedMaxSize sdiv 10) (16 * 1024 * 1024)"

text \<open>
  The constructor. \<open>nextPrefix\<close> is \<open>rocksGetNextPrefix\<close>, \<open>oplogNs\<close> the result of
  \<open>NamespaceString::oplog(ns)\<close>, \<open>lastKey\<close> the key of the last entry under the prefix
  (\<open>None\<close> when the collection is empty), \<open>loadedNumRecords\<close> and \<open>loadedDataSize\<close>
  what the counter manager has stored, and \<open>backgroundThread\<close> the result of
  \<open>RocksEngine::initRsOplogBackgroundThread\<close>.
\<close>

definition RocksRecordStore_new ::
  "(bytes \<Rightarrow> bytes) \<Rightarrow> bytes \<Rightarrow> bool \<Rightarrow> int \<Rightarrow> int \<Rightarrow> bool \<Rightarrow> bool \<Rightarrow> bytes option \<Rightarrow>
     int \<Rightarrow> int \<Rightarrow> bool \<Rightarrow> error + RocksRecordStore" where
  "RocksRecordStore_new nextPrefix pfx capped maxSize maxDocs callback oplogNs lastKey
       loadedNumRecords loadedDataSize backgroundThread =
     (let rs0 = \<lparr> rs_prefix = pfx, rs_isCapped = capped, rs_cappedMaxSize = maxSize,
                  rs_cappedMaxSizeSlack = cappedMaxSizeSlackFromSize maxSize,
                  rs_cappedMaxDocs = maxDocs, rs_cappedCallback = callback,
                  rs_isOplog = oplogNs,
                  rs_oplogKeyTracker = (if oplogNs then nextPrefix pfx else []),
                  rs_cappedOldestKeyHint = RecordId 0,
                  rs_cappedVisibilityManager =
                    (if capped \<or> oplogNs then Some CappedVisibilityManager_new else None),
                  rs_nextIdNum = 1, rs_numRecords = 0, rs_dataSize = 0,
                  rs_shuttingDown = False, rs_hasBackgroundThread = False, rs_db = [] \<rparr>
      in if capped \<and> \<not> (0 < maxSize \<and> (maxDocs = - 1 \<or> 0 < maxDocs)) then Inl Aborted
         else if \<not> capped \<and> \<not> (maxSize = - 1 \<and> maxDocs = - 1) then Inl Aborted
         else (case (case lastKey of
                       None \<Rightarrow> Inr (rs0\<lparr> rs_nextIdNum := 1 \<rparr>)
                     | Some k \<Rightarrow>
                         (case makeRecordId k of
                            None \<Rightarrow> Inl Aborted
                          | Some lastId \<Rightarrow>
                              Inr (rs0\<lparr> rs_cappedVisibilityManager :=
                                          map_option (\<lambda>m. updateHighestSeen m lastId)
                                            (rs_cappedVisibilityManager rs0),
                                        rs_nextIdNum := repr lastId + 1 \<rparr>))) of
                 Inl e \<Rightarrow> Inl e
               | Inr rs1 \<Rightarrow>
                   Inr (rs1\<lparr> rs_numRecords := (if loadedNumRecords < 0 then 0 else loadedNumRecords),
                             rs_dataSize := (if loadedDataSize < 0 then 0 else loadedDataSize),
                             rs_hasBackgroundThread := backgroundThread \<rparr>)))"

text \<open>\<open>updateCappedSize\<close>.\<close>

definition updateCappedSize :: "RocksRecordStore \<Rightarrow> int \<Rightarrow> RocksRecordStore" where
  "updateCappedSize rs cappedSize =
     (if rs_cappedMaxSize rs = cappedSize then rs
      else rs\<lparr> rs_cappedMaxSize := cappedSize,
               rs_cappedMaxSizeSlack := cappedMaxSizeSlackFromSize cappedSize \<rparr>)"

text \<open>\<open>_nextId\<close>: \<open>fetchAndAdd(1)\<close> on the 64-bit \<open>_nextIdNum\<close>.\<close>

definition nextId :: "RocksRecordStore \<Rightarrow> error + (RecordId \<times> RocksRecordStore)" where
  "nextId rs =
     (if rs_isOplog rs then Inl Aborted
      else Inr (RecordId (rs_nextIdNum rs), rs\<lparr> rs_nextIdNum := rs_nextIdNum rs + 1 \<rparr>))"

text \<open>\<open>cappedAndNeedDelete\<close>.\<close>

definition cappedAndNeedDelete :: "RocksRecordStore \<Rightarrow> int \<Rightarrow> int \<Rightarrow> error + bool" where
  "cappedAndNeedDelete rs dataSizeDelta numRecordsDelta =
     (if \<not> rs_isCapped rs then Inl Aborted
      else if rs_dataSize rs + dataSizeDelta > rs_cappedMaxSize rs then Inr True
      else if rs_cappedMaxDocs rs \<noteq> - 1 \<and> rs_numRecords rs + numRecordsDelta > rs_cappedMaxDocs rs
      then Inr True
      else Inr False)"


section \<open>The capped deleter\<close>

text \<open>
  What a deletion pass meets outside the store: the two answers of the deleter mutex
  (\<open>try_lock\<close>, \<open>try_lock_for\<close> 200 ms), the entries the iterator of the
  sub-transaction ranges over (those of the tracker for an oplog), the visibility manager as
  the n-th call of \<open>isCappedHidden\<close> made by the pass finds it (other threads change it
  under its own mutex while the pass runs), the answer of \<open>registerWrite\<close> for a key, and
  what the capped callback does for a record: it returns a good status, returns a bad one
  (which \<open>uassertStatusOK\<close> throws), or throws a write conflict.
\<close>

datatype callback_result = CallbackOK | CallbackStatus nat | CallbackWriteConflict

record deleter_env =
  de_try_lock :: bool
  de_try_lock_for :: bool
  de_entries :: "(bytes \<times> bytes) list"
  de_manager :: "nat \<Rightarrow> CappedVisibilityManager"
  de_registerWrite :: "bytes \<Rightarrow> bool"
  de_aboutToDeleteCapped :: "RecordId \<Rightarrow> bytes \<Rightarrow> callback_result"

text \<open>
  The local variables of the pass: \<open>docsRemoved\<close>, \<open>sizeSaved\<close>, the write batch of
  the sub-transaction, the ids whose deletion has been staged (in order), and the number of
  calls of \<open>isCappedHidden\<close> made so far.
\<close>

record pass_state =
  docsRemoved :: int
  sizeSaved :: int
  batch :: "batch_op list"
  removed :: "RecordId list"
  hiddenCalls :: nat

datatype loop_exit = LoopEnded | Thrown error

definition emptyBson :: bytes where
  "emptyBson = [5, 0, 0, 0, 0]"

text \<open>
  The \<open>while\<close> loop of \<open>cappedDeleteAsNeeded_inlock\<close>. The iterator only moves
  forwards: it is the list of the entries from its position on, and it is valid while the
  list is not empty. The result is how the loop was left, the local variables, and the
  iterator.
\<close>

fun cappedDeleteLoop ::
  "deleter_env \<Rightarrow> RocksRecordStore \<Rightarrow> RecordId \<Rightarrow> int \<Rightarrow> int \<Rightarrow> (bytes \<times> bytes) list \<Rightarrow>
     pass_state \<Rightarrow> loop_exit \<times> pass_state \<times> (bytes \<times> bytes) list" where
  "cappedDeleteLoop env rs justInserted sizeOverCap docsOverCap [] st = (LoopEnded, st, [])"
| "cappedDeleteLoop env rs justInserted sizeOverCap docsOverCap ((k, v) # rest) st =
     (if \<not> ((sizeSaved st < sizeOverCap \<or> docsRemoved st < docsOverCap) \<and> docsRemoved st < 20000)
      then (LoopEnded, st, (k, v) # rest)
      else (case makeRecordId k of
              None \<Rightarrow> (Thrown Aborted, st, (k, v) # rest)
            | Some newestOld \<Rightarrow>
                (let st0 = st\<lparr> hiddenCalls := Suc (hiddenCalls st) \<rparr>
                 in if isCappedHidden (de_manager env (hiddenCalls st)) newestOld
                    then (LoopEnded, st0, (k, v) # rest)
                    else if rid_le justInserted newestOld
                    then (LoopEnded, st0, (k, v) # rest)
                    else if rs_shuttingDown rs
                    then (LoopEnded, st0, (k, v) # rest)
                    else if \<not> de_registerWrite env (makePrefixedKey (rs_prefix rs) newestOld)
                    then (LoopEnded, st0, (k, v) # rest)
                    else (let oldValue = (if rs_isOplog rs then emptyBson else v);
                              st1 = st0\<lparr> docsRemoved := docsRemoved st0 + 1,
                                         sizeSaved := sizeSaved st0 +
                                           (if rs_isOplog rs then decodeSize v else int (length v)) \<rparr>
                          in (case (if rs_cappedCallback rs
                                    then de_aboutToDeleteCapped env newestOld oldValue
                                    else CallbackOK) of
                                CallbackStatus code \<Rightarrow> (Thrown (OtherStatus code), st1, (k, v) # rest)
                              | CallbackWriteConflict \<Rightarrow>
                                  (Thrown WriteConflictException, st1, (k, v) # rest)
                              | CallbackOK \<Rightarrow>
                                  cappedDeleteLoop env rs justInserted sizeOverCap docsOverCap rest
                                    (st1\<lparr> batch := batch st1 @
                                             Delete (makePrefixedKey (rs_prefix rs) newestOld) #
                                             (if rs_isOplog rs
                                              then [deleteKey (rs_oplogKeyTracker rs) newestOld]
                                              else []),
                                           removed := removed st1 @ [newestOld] \<rparr>))))))"

text \<open>
  The sizes the pass starts from, and the run of the loop from the place
  \<open>Seek(_makeKey(_cappedOldestKeyHint))\<close> lands on.
\<close>

definition sizeOverCap_of :: "RocksRecordStore \<Rightarrow> RocksRecoveryUnit \<Rightarrow> int" where
  "sizeOverCap_of rs realRecoveryUnit =
     (let dataSize = rs_dataSize rs + ru_deltaDataSize realRecoveryUnit
      in if dataSize > rs_cappedMaxSize rs then dataSize - rs_cappedMaxSize rs else 0)"

definition docsOverCap_of :: "RocksRecordStore \<Rightarrow> RocksRecoveryUnit \<Rightarrow> int" where
  "docsOverCap_of rs realRecoveryUnit =
     (let numRecords = rs_numRecords rs + ru_deltaNumRecords realRecoveryUnit
      in if rs_cappedMaxDocs rs \<noteq> - 1 \<and> numRecords > rs_cappedMaxDocs rs
         then numRecords - rs_cappedMaxDocs rs else 0)"

definition pass_start :: "deleter_env \<Rightarrow> RocksRecordStore \<Rightarrow> (bytes \<times> bytes) list" where
  "pass_start env rs =
     dropWhile (\<lambda>e. bytes_less (fst e) (makeKey (rs_cappedOldestKeyHint rs))) (de_entries env)"

definition deletion_pass ::
  "deleter_env \<Rightarrow> RocksRecordStore \<Rightarrow> RocksRecoveryUnit \<Rightarrow> RecordId \<Rightarrow>
     loop_exit \<times> pass_state \<times> (bytes \<times> bytes) list" where
  "deletion_pass env rs realRecoveryUnit justInserted =
     cappedDeleteLoop env rs justInserted
       (sizeOverCap_of rs realRecoveryUnit) (docsOverCap_of rs realRecoveryUnit)
       (pass_start env rs)
       \<lparr> docsRemoved = 0, sizeSaved = 0, batch = [], removed = [], hiddenCalls = 0 \<rparr>"

text \<open>
  \<open>cappedDeleteAsNeeded_inlock\<close>. The pass runs in a sub-transaction: when some record
  was removed, its two counter changes and its batch are committed (the changes reach the
  atomics at commit); a thrown write conflict discards it and gives 0; any other exception
  discards it and goes on to the caller. The caller's recovery unit is put back unchanged
  on every path, so it is only read. The scheduling of compactions that follows for an
  oplog touches the compaction scheduler and a timer only and is left out.
\<close>

definition cappedDeleteAsNeeded_inlock ::
  "deleter_env \<Rightarrow> RocksRecordStore \<Rightarrow> RocksRecoveryUnit \<Rightarrow> RecordId \<Rightarrow>
     (error + int) \<times> RocksRecordStore" where
  "cappedDeleteAsNeeded_inlock env rs realRecoveryUnit justInserted =
     (case deletion_pass env rs realRecoveryUnit justInserted of
        (Thrown WriteConflictException, st, iter) \<Rightarrow> (Inr 0, rs)
      | (Thrown e, st, iter) \<Rightarrow> (Inl e, rs)
      | (LoopEnded, st, iter) \<Rightarrow>
          (let rs1 = (if docsRemoved st > 0
                      then rs\<lparr> rs_numRecords := rs_numRecords rs - docsRemoved st,
                               rs_dataSize := rs_dataSize rs - sizeSaved st,
                               rs_db := rs_db rs @ batch st \<rparr>
                      else rs)
           in (case iter of
                 [] \<Rightarrow> (Inr (docsRemoved st), rs1)
               | (k, v) # rest \<Rightarrow>
                   (case makeRecordId k of
                      None \<Rightarrow> (Inl Aborted, rs1)
                    | Some oldestAliveRecordId \<Rightarrow>
                        if \<not> isCappedHidden (de_manager env (hiddenCalls st)) oldestAliveRecordId
                        then (Inr (docsRemoved st),
                              rs1\<lparr> rs_cappedOldestKeyHint := oldestAliveRecordId \<rparr>)
                        else (Inr (docsRemoved st), rs1)))))"

text \<open>
  \<open>cappedDeleteAsNeeded\<close>. Beside the result and the store, the calls made on the
  deleter mutex are returned, in order (the lock is released on return).
\<close>

datatype lock_call = Lock | Try_lock bool | Try_lock_for nat bool

definition cappedDeleteAsNeeded ::
  "deleter_env \<Rightarrow> RocksRecordStore \<Rightarrow> RocksRecoveryUnit \<Rightarrow> RecordId \<Rightarrow>
     (error + int) \<times> RocksRecordStore \<times> lock_call list" where
  "cappedDeleteAsNeeded env rs ru justInserted =
     (if \<not> rs_isCapped rs then (Inr 0, rs, [])
      else if \<not> (\<not> rs_isOplog rs \<or> rs_cappedMaxDocs rs = - 1) then (Inl Aborted, rs, [])
      else
        (let dataSizeDelta = (if \<not> rs_isOplog rs then ru_deltaDataSize ru else 0);
             numRecordsDelta = (if \<not> rs_isOplog rs then ru_deltaNumRecords ru else 0)
         in (case cappedAndNeedDelete rs dataSizeDelta numRecordsDelta of
               Inl e \<Rightarrow> (Inl e, rs, [])
             | Inr False \<Rightarrow> (Inr 0, rs, [])
             | Inr True \<Rightarrow>
                 if rs_cappedMaxDocs rs \<noteq> - 1
                 then (case cappedDeleteAsNeeded_inlock env rs ru justInserted of
                         (r, rs') \<Rightarrow> (r, rs', [Lock]))
                 else if rs_hasBackgroundThread rs
                 then (if rs_dataSize rs - rs_cappedMaxSize rs < rs_cappedMaxSizeSlack rs
                       then (Inr 0, rs, [])
                       else if \<not> de_try_lock env
                       then (Inr 0, rs, [Try_lock False, Try_lock_for 200 (de_try_lock_for env)])
                       else (Inr 0, rs, [Try_lock True]))
                 else if \<not> de_try_lock env
                 then (if rs_dataSize rs - rs_cappedMaxSize rs < rs_cappedMaxSizeSlack rs
                       then (Inr 0, rs, [Try_lock False])
                       else if \<not> de_try_lock_for env
                       then (Inr 0, rs, [Try_lock False, Try_lock_for 200 False])
                       else if rs_dataSize rs - rs_cappedMaxSize rs < 2 * rs_cappedMaxSizeSlack rs
                       then (Inr 0, rs, [Try_lock False, Try_lock_for 200 True])
                       else (case cappedDeleteAsNeeded_inlock env rs ru justInserted of
                               (r, rs') \<Rightarrow> (r, rs', [Try_lock False, Try_lock_for 200 True])))
                 else (case cappedDeleteAsNeeded_inlock env rs ru justInserted of
                         (r, rs') \<Rightarrow> (r, rs', [Try_lock True])))))"


section \<open>Inserting\<close>

text \<open>
  The choice of the record id in \<open>insertRecord\<close>. \<open>extractKey\<close> is
  \<open>oploghack::extractKey\<close> (not among the sources), applied to the payload. The
  visibility manager is reached through a pointer that the constructor sets for every
  capped collection and every oplog; following it when it is null ends the process.
\<close>

definition allocateRecordId ::
  "(bytes \<Rightarrow> error + RecordId) \<Rightarrow> RocksRecordStore \<Rightarrow> RocksRecoveryUnit \<Rightarrow> bytes \<Rightarrow>
     error + (RecordId \<times> RocksRecordStore \<times> RocksRecoveryUnit)" where
  "allocateRecordId extractKey rs ru data =
     (if rs_isOplog rs
      then (case extractKey data of
              Inl e \<Rightarrow> Inl e
            | Inr loc \<Rightarrow>
                (case rs_cappedVisibilityManager rs of
                   None \<Rightarrow> Inl Aborted
                 | Some m \<Rightarrow>
                     Inr (loc, rs\<lparr> rs_cappedVisibilityManager := Some (updateHighestSeen m loc) \<rparr>, ru)))
      else if rs_isCapped rs
      then (case rs_cappedVisibilityManager rs of
              None \<Rightarrow> Inl Aborted
            | Some m \<Rightarrow>
                (case nextId rs of
                   Inl e \<Rightarrow> Inl e
                 | Inr (fresh, rs1) \<Rightarrow>
                     (case getNextAndAddUncommittedRecord m ru fresh of
                        Inl e \<Rightarrow> Inl e
                      | Inr (loc, m', ru') \<Rightarrow>
                          Inr (loc, rs1\<lparr> rs_cappedVisibilityManager := Some m' \<rparr>, ru'))))
      else (case nextId rs of
              Inl e \<Rightarrow> Inl e
            | Inr (loc, rs1) \<Rightarrow> Inr (loc, rs1, ru)))"

text \<open>
  \<open>insertRecord\<close>. The payload is the byte string \<open>data\<close> and \<open>len\<close> its length.
  An error comes back with the store and the recovery unit as they are at that point.
\<close>

definition insertRecord ::
  "(bytes \<Rightarrow> error + RecordId) \<Rightarrow> deleter_env \<Rightarrow> RocksRecordStore \<Rightarrow> RocksRecoveryUnit \<Rightarrow> bytes \<Rightarrow>
     (error + RecordId) \<times> RocksRecordStore \<times> RocksRecoveryUnit" where
  "insertRecord extractKey env rs ru data =
     (let len = int (length data)
      in if rs_isCapped rs \<and> len > rs_cappedMaxSize rs then (Inl BadValue, rs, ru)
         else (case allocateRecordId extractKey rs ru data of
                 Inl e \<Rightarrow> (Inl e, rs, ru)
               | Inr (loc, rs1, ru1) \<Rightarrow>
                   (let ru2 = ru1\<lparr> ru_writeBatch := ru_writeBatch ru1 @
                                      Put (makePrefixedKey (rs_prefix rs1) loc) data #
                                      (if rs_isOplog rs1
                                       then [insertKey (rs_oplogKeyTracker rs1) loc len] else []),
                                    ru_deltaNumRecords := ru_deltaNumRecords ru1 + 1,
                                    ru_deltaDataSize := ru_deltaDataSize ru1 + len \<rparr>
                    in (case cappedDeleteAsNeeded env rs1 ru2 loc of
                          (Inl e, rs2, calls) \<Rightarrow> (Inl e, rs2, ru2)
                        | (Inr n, rs2, calls) \<Rightarrow> (Inr loc, rs2, ru2)))))"

text \<open>
  \<open>oplogDiskLocRegister\<close>. \<open>keyForOptime\<close> is \<open>oploghack::keyForOptime\<close> (not among the
  sources); a timestamp is a 64-bit value. The result is the status of the conversion.
\<close>

definition oplogDiskLocRegister ::
  "(64 word \<Rightarrow> error + RecordId) \<Rightarrow> RocksRecordStore \<Rightarrow> RocksRecoveryUnit \<Rightarrow> 64 word \<Rightarrow>
     (error + unit) \<times> RocksRecordStore \<times> RocksRecoveryUnit" where
  "oplogDiskLocRegister keyForOptime rs ru opTime =
     (if \<not> rs_isOplog rs then (Inl Aborted, rs, ru)
      else (case keyForOptime opTime of
              Inl e \<Rightarrow> (Inl e, rs, ru)
            | Inr record \<Rightarrow>
                (case rs_cappedVisibilityManager rs of
                   None \<Rightarrow> (Inl Aborted, rs, ru)
                 | Some m \<Rightarrow>
                     (case addUncommittedRecord m ru record of
                        Inl e \<Rightarrow> (Inl e, rs, ru)
                      | Inr (m', ru') \<Rightarrow>
                          (Inr (), rs\<lparr> rs_cappedVisibilityManager := Some m' \<rparr>, ru')))))"

section \<open>Cursor\<close>

text \<open>
  The fields of \<open>RocksRecordStore::Cursor\<close>. The visibility manager is shared with the
  store: each operation takes it as it is at the call (\<open>None\<close> for the null pointer).
\<close>

record Cursor =
  c_prefix :: bytes
  c_forward :: bool
  c_isCapped :: bool
  c_eof :: bool
  c_needFirstSeek :: bool
  c_skipNextAdvance :: bool
  c_readUntilForOplog :: RecordId
  c_lastLoc :: RecordId
  c_iterator :: "RocksIterator option"
  c_seekExactResult :: bytes

text \<open>\<open>_lastLoc != _makeRecordId(_iterator->key())\<close>, on an iterator that must be valid.\<close>

definition landed_elsewhere :: "RocksIterator \<Rightarrow> RecordId \<Rightarrow> error + bool" where
  "landed_elsewhere it lastLoc =
     (case it_current it of
        None \<Rightarrow> Inl Aborted
      | Some (k, v) \<Rightarrow>
          (case makeRecordId k of
             None \<Rightarrow> Inl Aborted
           | Some loc \<Rightarrow> Inr (lastLoc \<noteq> loc)))"

text \<open>\<open>positionIterator\<close>.\<close>

definition positionIterator :: "Cursor \<Rightarrow> error + Cursor" where
  "positionIterator c =
     (case c_iterator c of
        None \<Rightarrow> Inl Aborted
      | Some it0 \<Rightarrow>
          (let seekTarget = makeKey (c_lastLoc c);
               reseek = (\<not> Valid it0 \<or> map_option fst (it_current it0) \<noteq> Some seekTarget);
               it1 = (if reseek then Seek it0 seekTarget else it0)
           in if reseek \<and> \<not> Valid it1 \<and> \<not> it_status_ok it1 then Inl Aborted
              else
                (case
                   (if c_forward c
                    then (if \<not> Valid it1 then Inr (True, it1)
                          else (case landed_elsewhere it1 (c_lastLoc c) of
                                  Inl e \<Rightarrow> Inl e
                                | Inr after \<Rightarrow> Inr (after, it1)))
                    else (if \<not> Valid it1
                          then (let it2 = SeekToLast it1
                                in if \<not> it_status_ok it2 then Inl Aborted else Inr (True, it2))
                          else (case landed_elsewhere it1 (c_lastLoc c) of
                                  Inl e \<Rightarrow> Inl e
                                | Inr after \<Rightarrow>
                                    if after then Inr (True, Prev it1) else Inr (False, it1)))) of
                   Inl e \<Rightarrow> Inl e
                 | Inr (skip, it2) \<Rightarrow>
                     (case (if \<not> Valid it2 then Inr True
                            else if \<not> c_isCapped c then Inr False
                            else landed_elsewhere it2 (c_lastLoc c)) of
                        Inl e \<Rightarrow> Inl e
                      | Inr eof \<Rightarrow>
                          Inr (c\<lparr> c_skipNextAdvance := skip, c_iterator := Some it2,
                                  c_eof := eof \<rparr>)))))"

text \<open>\<open>iterator()\<close>: the iterator is made at the first use.\<close>

definition iterator :: "RocksRecoveryUnit \<Rightarrow> Cursor \<Rightarrow> error + Cursor" where
  "iterator ru c =
     (case c_iterator c of
        Some it \<Rightarrow> Inr c
      | None \<Rightarrow>
          (let c1 = c\<lparr> c_iterator := Some (NewIterator ru (c_prefix c)) \<rparr>
           in if \<not> c_needFirstSeek c1 then positionIterator c1 else Inr c1))"

text \<open>\<open>curr()\<close>. A record is its id and its payload.\<close>

definition curr ::
  "CappedVisibilityManager option \<Rightarrow> Cursor \<Rightarrow> (error + (RecordId \<times> bytes) option) \<times> Cursor" where
  "curr manager c =
     (case c_iterator c of
        None \<Rightarrow> (Inl Aborted, c)
      | Some it \<Rightarrow>
          (case it_current it of
             None \<Rightarrow> if \<not> it_status_ok it then (Inl Aborted, c) else (Inr None, c\<lparr> c_eof := True \<rparr>)
           | Some (k, v) \<Rightarrow>
               (case makeRecordId k of
                  None \<Rightarrow> (Inl Aborted, c\<lparr> c_eof := False \<rparr>)
                | Some loc \<Rightarrow>
                    (let c1 = c\<lparr> c_eof := False, c_lastLoc := loc \<rparr>
                     in (case manager of
                           None \<Rightarrow> (Inr (Some (loc, v)), c1)
                         | Some m \<Rightarrow>
                             if \<not> c_forward c1 then (Inr (Some (loc, v)), c1)
                             else if isNull (c_readUntilForOplog c1)
                             then (if isCappedHidden m loc
                                   then (Inr None, c1\<lparr> c_eof := True \<rparr>)
                                   else (Inr (Some (loc, v)), c1))
                             else (if rid_less (c_readUntilForOplog c1) loc \<or>
                                      (loc = c_readUntilForOplog c1 \<and> isCappedHidden m loc)
                                   then (Inr None, c1\<lparr> c_eof := True \<rparr>)
                                   else (Inr (Some (loc, v)), c1)))))))"

text \<open>\<open>next()\<close>.\<close>

definition Cursor_next ::
  "CappedVisibilityManager option \<Rightarrow> RocksRecoveryUnit \<Rightarrow> Cursor \<Rightarrow>
     (error + (RecordId \<times> bytes) option) \<times> Cursor" where
  "Cursor_next manager ru c =
     (if c_eof c then (Inr None, c)
      else (case iterator ru c of
              Inl e \<Rightarrow> (Inl e, c)
            | Inr c1 \<Rightarrow>
                (case c_iterator c1 of
                   None \<Rightarrow> (Inl Aborted, c1)
                 | Some iter \<Rightarrow>
                     (let c2 =
                        (if \<not> c_skipNextAdvance c1
                         then (if c_needFirstSeek c1
                               then c1\<lparr> c_needFirstSeek := False,
                                        c_iterator := Some (if c_forward c1 then SeekToFirst iter
                                                            else SeekToLast iter) \<rparr>
                               else c1\<lparr> c_iterator := Some (if c_forward c1 then Next iter
                                                            else Prev iter) \<rparr>)
                         else c1)
                      in curr manager (c2\<lparr> c_skipNextAdvance := False \<rparr>)))))"

text \<open>\<open>seekExact(id)\<close>.\<close>

definition seekExact ::
  "RocksRecoveryUnit \<Rightarrow> Cursor \<Rightarrow> RecordId \<Rightarrow> (error + (RecordId \<times> bytes) option) \<times> Cursor" where
  "seekExact ru c rid =
     (let c1 = c\<lparr> c_needFirstSeek := False, c_skipNextAdvance := False, c_iterator := None \<rparr>
      in (case ru_Get ru (makePrefixedKey (c_prefix c1) rid) of
            GetNotFound \<Rightarrow> (Inr None, c1\<lparr> c_eof := True \<rparr>)
          | GetFailed \<Rightarrow> (Inl Aborted, c1)
          | GetOK val \<Rightarrow>
              (Inr (Some (rid, val)),
               c1\<lparr> c_eof := False, c_lastLoc := rid, c_seekExactResult := val \<rparr>)))"



section \<open>The least uncommitted id\<close>

text \<open>
  The minimum of the uncommitted ids, in the words of the spec (\<open>min(uncommitted)\<close>):
  \<open>lo\<close> is one of the uncommitted ids of the manager and none of them is below it.
\<close>

definition least_uncommitted :: "CappedVisibilityManager \<Rightarrow> RecordId \<Rightarrow> bool" where
  "least_uncommitted m lo =
     (lo \<in> set (uncommittedRecords m) \<and> (\<forall>x \<in> set (uncommittedRecords m). rid_le lo x))"


section \<open>The calls on the manager, in their order\<close>



section \<open>Example states\<close>

text \<open>
  A manager of an oplog on which the ids 5, 6 and 7 were registered in this order and the
  transaction of 6 has committed: 6 waits for the journal, and the journal thread was told.
\<close>

definition example_manager_567 :: CappedVisibilityManager where
  "example_manager_567 =
     \<lparr> uncommittedRecords = [RecordId 5, RecordId 6, RecordId 7], oplog_highestSeen = RecordId 7,
       opsWaitingForJournal = [RecordId 6], cvm_shuttingDown = False,
       notifications = [OpsWaitingForJournalCV_notify_one] \<rparr>"

text \<open>A manager with the given uncommitted ids and highest seen id, and nothing else.\<close>

definition example_manager :: "RecordId list \<Rightarrow> RecordId \<Rightarrow> CappedVisibilityManager" where
  "example_manager us hs =
     \<lparr> uncommittedRecords = us, oplog_highestSeen = hs, opsWaitingForJournal = [],
       cvm_shuttingDown = False, notifications = [] \<rparr>"

text \<open>
  An oplog with prefix \<open>P\<close> that holds the records 3 and 7, has seen the id 10 and has
  nothing uncommitted; the recovery unit of a reader, which sees both records; and a forward
  cursor with the given read ceiling that stands on record 7.
\<close>

definition example_oplog :: RocksRecordStore where
  "example_oplog =
     \<lparr> rs_prefix = [80], rs_isCapped = True, rs_cappedMaxSize = 1000,
       rs_cappedMaxSizeSlack = 100, rs_cappedMaxDocs = - 1, rs_cappedCallback = False,
       rs_isOplog = True, rs_oplogKeyTracker = [81], rs_cappedOldestKeyHint = RecordId 0,
       rs_cappedVisibilityManager = Some (example_manager [] (RecordId 10)),
       rs_nextIdNum = 1, rs_numRecords = 2, rs_dataSize = 2, rs_shuttingDown = False,
       rs_hasBackgroundThread = False, rs_db = [] \<rparr>"

definition example_entries :: "(bytes \<times> bytes) list" where
  "example_entries = [(makeKey (RecordId 3), [11]), (makeKey (RecordId 7), [12])]"

definition example_Get :: "bytes \<Rightarrow> get_status" where
  "example_Get key =
     (if key = makePrefixedKey [80] (RecordId 3) then GetOK [11]
      else if key = makePrefixedKey [80] (RecordId 7) then GetOK [12]
      else GetNotFound)"

definition example_unit :: RocksRecoveryUnit where
  "example_unit =
     \<lparr> ru_writeBatch = [], ru_deltaDataSize = 0, ru_deltaNumRecords = 0, ru_changes = [],
       ru_oplogReadTill = RecordId_null, ru_hasSnapshot = False, ru_Get = example_Get,
       ru_entries = (\<lambda>pfx. if pfx = [80] then example_entries else []),
       ru_iterator_ok = True \<rparr>"

definition example_iterator_at_7 :: RocksIterator where
  "example_iterator_at_7 =
     \<lparr> it_entries = example_entries, it_position = Some 1, it_status_ok = True \<rparr>"

definition example_cursor :: "RecordId \<Rightarrow> Cursor" where
  "example_cursor readUntil =
     \<lparr> c_prefix = [80], c_forward = True, c_isCapped = True, c_eof = False,
       c_needFirstSeek = False, c_skipNextAdvance = False, c_readUntilForOplog = readUntil,
       c_lastLoc = RecordId 3, c_iterator = Some example_iterator_at_7, c_seekExactResult = [] \<rparr>"



text \<open>Timestamps whose id is the timestamp itself (the seconds are 0).\<close>

definition example_keyForOptime :: "64 word \<Rightarrow> error + RecordId" where
  "example_keyForOptime opTime = Inr (RecordId opTime)"

text \<open>
  A capped collection of at most 3 bytes that holds the committed records 1, 2 and 4 of two
  bytes each, while the inserts of 3 and 5 are uncommitted; and what a deletion pass on it
  meets: the mutex is taken by someone else at first and obtained within 200 ms, the
  iterator sees the three committed records, the manager does not change, no write
  conflicts, and a callback that accepts.
\<close>

definition example_capped :: RocksRecordStore where
  "example_capped =
     \<lparr> rs_prefix = [80], rs_isCapped = True, rs_cappedMaxSize = 3,
       rs_cappedMaxSizeSlack = 0, rs_cappedMaxDocs = - 1, rs_cappedCallback = False,
       rs_isOplog = False, rs_oplogKeyTracker = [], rs_cappedOldestKeyHint = RecordId 0,
       rs_cappedVisibilityManager = Some (example_manager [RecordId 3, RecordId 5] (RecordId 5)),
       rs_nextIdNum = 6, rs_numRecords = 3, rs_dataSize = 8, rs_shuttingDown = False,
       rs_hasBackgroundThread = False, rs_db = [] \<rparr>"

definition example_env :: deleter_env where
  "example_env =
     \<lparr> de_try_lock = False, de_try_lock_for = True,
       de_entries = [(makeKey (RecordId 1), [1, 1]), (makeKey (RecordId 2), [2, 2]),
                     (makeKey (RecordId 4), [4, 4])],
       de_manager = (\<lambda>n. example_manager [RecordId 3, RecordId 5] (RecordId 5)),
       de_registerWrite = (\<lambda>key. True),
       de_aboutToDeleteCapped = (\<lambda>r v. CallbackOK) \<rparr>"

text \<open>A payload whose first byte is the id of the oplog entry.\<close>

definition example_extractKey :: "bytes \<Rightarrow> error + RecordId" where
  "example_extractKey data =
     (case data of [] \<Rightarrow> Inl (OtherStatus 2) | b # rest \<Rightarrow> Inr (RecordId (ucast b)))"

section \<open>The order of record ids\<close>

lemma rid_less_irrefl: "\<not> rid_less a a"
  by (simp add: rid_less_def)

lemma rid_less_asym: "rid_less a b \<Longrightarrow> \<not> rid_less b a"
  by (simp add: rid_less_def word_sless_alt)

lemma rid_less_trans: "rid_less a b \<Longrightarrow> rid_less b c \<Longrightarrow> rid_less a c"
  by (simp add: rid_less_def word_sless_alt)

lemma rid_le_less: "rid_le a b = (\<not> rid_less b a)"
  by (auto simp add: rid_le_def rid_less_def)

lemma rid_le_refl: "rid_le a a"
  by (simp add: rid_le_def)

lemma rid_less_le_trans: "rid_less a b \<Longrightarrow> rid_le b c \<Longrightarrow> rid_less a c"
  by (simp add: rid_less_def rid_le_def word_sless_alt word_sle_eq)

lemma rid_le_less_trans: "rid_le a b \<Longrightarrow> rid_less b c \<Longrightarrow> rid_less a c"
  by (simp add: rid_less_def rid_le_def word_sless_alt word_sle_eq)


lemma rid_less_imp_le: "rid_less a b \<Longrightarrow> rid_le a b"
  by (simp add: rid_less_def rid_le_def word_sless_alt word_sle_eq)

lemma rid_le_antisym: "rid_le a b \<Longrightarrow> rid_le b a \<Longrightarrow> a = b"
  by (cases a; cases b) (simp add: rid_le_def)

section \<open>The key codec\<close>

lemma length_be_digits: "length (be_digits k n) = k"
  by (induction k arbitrary: n) auto

lemma bytes_less_snoc:
  "length xs = length ys \<Longrightarrow>
     bytes_less (xs @ [a]) (ys @ [b]) = (bytes_less xs ys \<or> (xs = ys \<and> a < b))"
  by (induction xs ys rule: list_induct2) auto

lemma bytes_less_append_same: "bytes_less (p @ xs) (p @ ys) = bytes_less xs ys"
  by (induction p) auto

lemma byte_of_nat_less: "((of_nat m :: byte) < of_nat n) = (m mod 256 < n mod 256)"
  by (simp add: word_less_nat_alt unat_of_nat)

lemma byte_of_nat_eq: "((of_nat m :: byte) = of_nat n) = (m mod 256 = n mod 256)"
proof
  assume "(of_nat m :: byte) = of_nat n"
  then have "unat (of_nat m :: byte) = unat (of_nat n :: byte)" by simp
  then show "m mod 256 = n mod 256" by (simp add: unat_of_nat)
next
  assume "m mod 256 = n mod 256"
  then have "unat (of_nat m :: byte) = unat (of_nat n :: byte)" by (simp add: unat_of_nat)
  then show "(of_nat m :: byte) = of_nat n" by (simp only: word_unat_eq_iff)
qed

lemma nat_less_by_digits:
  "(m < n) = (m div 256 < n div 256 \<or> (m div 256 = n div 256 \<and> m mod 256 < n mod (256::nat)))"
proof -
  have m: "m = 256 * (m div 256) + m mod 256" and n: "n = 256 * (n div 256) + n mod 256"
    by simp_all
  have "m mod 256 < 256" "n mod 256 < 256" by simp_all
  then show ?thesis using m n by linarith
qed

lemma be_digits_inj:
  "be_digits k m = be_digits k n \<Longrightarrow> m < 256 ^ k \<Longrightarrow> n < 256 ^ k \<Longrightarrow> m = n"
proof (induction k arbitrary: m n)
  case 0
  then show ?case by simp
next
  case (Suc k)
  from Suc.prems(1) have a: "be_digits k (m div 256) = be_digits k (n div 256)"
    and b: "(of_nat m :: byte) = of_nat n" by simp_all
  from Suc.prems(2,3) have "m div 256 < 256 ^ k" "n div 256 < 256 ^ k"
    by (simp_all add: less_mult_imp_div_less)
  with a Suc.IH have d: "m div 256 = n div 256" by blast
  from b have "m mod 256 = n mod 256" by (simp add: byte_of_nat_eq)
  with d show ?case by (metis div_mult_mod_eq)
qed

lemma be_digits_less:
  "m < 256 ^ k \<Longrightarrow> n < 256 ^ k \<Longrightarrow> bytes_less (be_digits k m) (be_digits k n) = (m < n)"
proof (induction k arbitrary: m n)
  case 0
  then show ?case by simp
next
  case (Suc k)
  from Suc.prems have lt: "m div 256 < 256 ^ k" "n div 256 < 256 ^ k"
    by (simp_all add: less_mult_imp_div_less)
  have eq: "(be_digits k (m div 256) = be_digits k (n div 256)) = (m div 256 = n div 256)"
    using be_digits_inj[OF _ lt] by auto
  have "bytes_less (be_digits (Suc k) m) (be_digits (Suc k) n) =
        (m div 256 < n div 256 \<or> (m div 256 = n div 256 \<and> m mod 256 < n mod 256))"
    by (simp add: bytes_less_snoc length_be_digits Suc.IH[OF lt] eq byte_of_nat_less)
  also have "\<dots> = (m < n)"
    by (rule nat_less_by_digits[symmetric])
  finally show ?case .
qed

lemma byte_of_shift: "(ucast (drop_bit k (w :: 64 word)) :: byte) = of_nat (unat w div 2 ^ k)"
  by (metis drop_bit_eq_div of_nat_unat unat_drop_bit_eq)

lemma nativeToBig_digits:
  "nativeToBig w = be_digits (Suc (Suc (Suc (Suc (Suc (Suc (Suc (Suc 0)))))))) (unat w)"
  using byte_of_shift[of 56 w] byte_of_shift[of 48 w] byte_of_shift[of 40 w] byte_of_shift[of 32 w]
    byte_of_shift[of 24 w] byte_of_shift[of 16 w] byte_of_shift[of 8 w]
  by (simp add: nativeToBig_def flip: div_mult2_eq)

lemma unat_below_256_8:
  "unat (w :: 64 word) < 256 ^ Suc (Suc (Suc (Suc (Suc (Suc (Suc (Suc 0)))))))"
  using unsigned_less[of w, where 'a = nat] by simp

lemma nativeToBig_less: "bytes_less (nativeToBig a) (nativeToBig b) = (a < b)"
  by (simp only: nativeToBig_digits be_digits_less[OF unat_below_256_8 unat_below_256_8]
      word_less_nat_alt)

lemma foldl_be_of_nat:
  "foldl (\<lambda>acc b. acc * 256 + ucast b) (of_nat a :: 64 word) (bs :: bytes) =
     of_nat (foldl (\<lambda>acc b. acc * 256 + unat b) a bs)"
proof (induction bs arbitrary: a)
  case Nil
  then show ?case by simp
next
  case (Cons b bs)
  have "(of_nat a :: 64 word) * 256 + ucast b = of_nat (a * 256 + unat b)"
    by simp
  then show ?case using Cons.IH[of "a * 256 + unat b"] by simp
qed

lemma foldl_be_digits:
  "foldl (\<lambda>acc b. acc * 256 + unat b) 0 (be_digits k n) = n mod 256 ^ k"
proof (induction k arbitrary: n)
  case 0
  then show ?case by simp
next
  case (Suc k)
  have "foldl (\<lambda>acc b. acc * 256 + unat b) 0 (be_digits (Suc k) n) =
          (n div 256 mod 256 ^ k) * 256 + n mod 256"
    by (simp add: Suc.IH unat_of_nat)
  also have "\<dots> = n mod 256 ^ Suc k"
    by (simp add: mod_mult2_eq)
  finally show ?case .
qed

lemma bigToNative_nativeToBig: "bigToNative (nativeToBig w) = w"
proof -
  have "bigToNative (nativeToBig w) =
        of_nat (unat w mod 256 ^ Suc (Suc (Suc (Suc (Suc (Suc (Suc (Suc 0))))))))"
    using foldl_be_of_nat[of 0 "nativeToBig w"]
    by (simp add: bigToNative_def nativeToBig_digits foldl_be_digits del: be_digits.simps)
  then show ?thesis using unat_below_256_8[of w] by simp
qed

lemma makeRecordId_makeKey: "makeRecordId (makeKey a) = Some a"
  by (simp add: makeRecordId_def makeKey_def bigToNative_nativeToBig)
    (simp add: nativeToBig_def)

lemma sint_by_cases:
  "sint (w :: 64 word) = (if uint w < 2 ^ 63 then uint w else uint w - 2 ^ 64)"
proof -
  have b: "0 \<le> uint w" "uint w < 2 ^ 64"
    using uint_lt2p[of w] by simp_all
  have s: "sint w = (uint w + 2 ^ 63) mod 2 ^ 64 - 2 ^ 63"
    by (simp add: sint_uint signed_take_bit_eq_take_bit_shift take_bit_eq_mod)
  show ?thesis
  proof (cases "uint w < 2 ^ 63")
    case True
    with b have "(uint w + 2 ^ 63) mod 2 ^ 64 = uint w + 2 ^ 63"
      by (simp add: mod_pos_pos_trivial)
    with s True show ?thesis by simp
  next
    case False
    with b have "(uint w + 2 ^ 63) mod 2 ^ 64 = uint w - 2 ^ 63"
      using mod_pos_pos_trivial[of "uint w - 2 ^ 63" "2 ^ 64"]
        mod_add_self2[of "uint w - 2 ^ 63" "2 ^ 64"]
      by (simp add: algebra_simps)
    with s False show ?thesis by simp
  qed
qed

lemma same_sign_sless:
  "((a :: 64 word) <s 0) = (b <s 0) \<Longrightarrow> (a <s b) = (a < b)"
  using uint_lt2p[of a] uint_lt2p[of b]
  by (simp add: word_sless_alt word_less_def sint_by_cases split: if_splits)

lemma negative_above_nonnegative:
  "(a :: 64 word) <s 0 \<Longrightarrow> \<not> b <s 0 \<Longrightarrow> b < a"
  using uint_lt2p[of a] uint_lt2p[of b]
  by (simp add: word_sless_alt word_less_def sint_by_cases split: if_splits)

text \<open>
  C9, as the code has it. The engine compares the encoded keys as unsigned bytes, so under
  one prefix their order is the order of the ids read as unsigned 64-bit values. It is the
  numeric order of the ids exactly for two ids of the same sign, in particular for all ids
  that are not negative; a negative id is encoded above every id that is not negative.
  Decoding the last eight bytes of an encoded key gives the id back, for every id.
\<close>

theorem makePrefixedKey_order_roundtrip:
  "(bytes_less (makePrefixedKey pfx a) (makePrefixedKey pfx b) = (repr a < repr b)) \<and>
   (rid_less a RecordId_null = rid_less b RecordId_null \<longrightarrow>
      bytes_less (makePrefixedKey pfx a) (makePrefixedKey pfx b) = rid_less a b) \<and>
   (rid_less a RecordId_null \<and> \<not> rid_less b RecordId_null \<longrightarrow>
      bytes_less (makePrefixedKey pfx b) (makePrefixedKey pfx a)) \<and>
   makeRecordId (drop (length (makePrefixedKey pfx a) - 8) (makePrefixedKey pfx a)) = Some a"
proof -
  have order: "bytes_less (makePrefixedKey pfx x) (makePrefixedKey pfx y) = (repr x < repr y)"
    for x y
    by (simp add: makePrefixedKey_def makeKey_def bytes_less_append_same nativeToBig_less)
  have len: "length (makeKey a) = 8"
    by (simp add: makeKey_def nativeToBig_def)
  then have decoded: "makeRecordId (drop (length (makePrefixedKey pfx a) - 8) (makePrefixedKey pfx a)) =
      Some a"
    by (simp add: makePrefixedKey_def makeRecordId_makeKey)
  have same: "bytes_less (makePrefixedKey pfx a) (makePrefixedKey pfx b) = rid_less a b"
    if "rid_less a RecordId_null = rid_less b RecordId_null"
    using that same_sign_sless[of "repr a" "repr b"]
    by (simp add: order rid_less_def RecordId_null_def)
  have mixed: "bytes_less (makePrefixedKey pfx b) (makePrefixedKey pfx a)"
    if "rid_less a RecordId_null" and "\<not> rid_less b RecordId_null"
    using that negative_above_nonnegative[of "repr a" "repr b"]
    by (simp add: order rid_less_def RecordId_null_def)
  from order decoded same mixed show ?thesis by blast
qed

theorem makePrefixedKey_order_roundtrip_witness:
  "rid_less (RecordId 258) RecordId_null = rid_less (RecordId 65536) RecordId_null \<and>
   rid_less (RecordId 258) (RecordId 65536) \<and>
   bytes_less (makePrefixedKey [80] (RecordId 258)) (makePrefixedKey [80] (RecordId 65536)) \<and>
   rid_less (RecordId (- 2)) RecordId_null \<and> \<not> rid_less (RecordId 258) RecordId_null \<and>
   bytes_less (makePrefixedKey [80] (RecordId 258)) (makePrefixedKey [80] (RecordId (- 2))) \<and>
   makeRecordId (drop (length (makePrefixedKey [80] (RecordId 258)) - 8)
                   (makePrefixedKey [80] (RecordId 258))) = Some (RecordId 258)"
  using makePrefixedKey_order_roundtrip[of "[80]" "RecordId 258" "RecordId 65536"]
    makePrefixedKey_order_roundtrip[of "[80]" "RecordId (- 2)" "RecordId 258"]
  by (simp add: rid_less_def RecordId_null_def word_sless_alt)

text \<open>
  C9 as stated fails for a negative and a positive id: \<open>-1 < 1\<close>, but the key of \<open>-1\<close>
  (eight bytes \<open>0xFF\<close>) is not below the key of \<open>1\<close>.
\<close>

theorem makePrefixedKey_order_counterexample:
  "rid_less (RecordId (- 1)) (RecordId 1) \<and>
   \<not> bytes_less (makePrefixedKey [80] (RecordId (- 1))) (makePrefixedKey [80] (RecordId 1))"
  by (simp add: rid_less_def word_sless_alt makePrefixedKey_def makeKey_def nativeToBig_def
      mask_eq_exp_minus_1)

section \<open>The order of the uncommitted ids\<close>

text \<open>
  \<open>_uncommittedRecords\<close> stays strictly increasing as long as each id is registered above
  the last one: the registration appends the id, and the other operations only erase. The
  first element of a strictly increasing list is its least one.
\<close>

lemma increasing_remove1: "sorted_wrt rid_less xs \<Longrightarrow> sorted_wrt rid_less (remove1 x xs)"
  by (induction xs) (auto dest: notin_set_remove1)

lemma increasing_fold_remove1:
  "sorted_wrt rid_less xs \<Longrightarrow> sorted_wrt rid_less (fold remove1 ops xs)"
  by (induction ops arbitrary: xs) (simp_all add: increasing_remove1)

lemma increasing_below_last:
  "sorted_wrt rid_less xs \<Longrightarrow> x \<in> set xs \<Longrightarrow> x = last xs \<or> rid_less x (last xs)"
  by (induction xs) auto

lemma increasing_snoc:
  assumes "sorted_wrt rid_less xs" and "xs = [] \<or> rid_less (last xs) r"
  shows "sorted_wrt rid_less (xs @ [r])"
proof -
  have "rid_less x r" if "x \<in> set xs" for x
  proof -
    from that have ne: "xs \<noteq> []" by auto
    with assms(2) have l: "rid_less (last xs) r" by simp
    from increasing_below_last[OF assms(1) that] l show ?thesis
      by (auto intro: rid_less_trans)
  qed
  with assms(1) show ?thesis by (simp add: sorted_wrt_append)
qed

lemma new_manager_increasing:
  "sorted_wrt rid_less (uncommittedRecords CappedVisibilityManager_new)"
  by (simp add: CappedVisibilityManager_new_def)

lemma addUncommittedRecord_inlock_increasing:
  assumes "addUncommittedRecord_inlock m ru r = Inr (m', ru')"
    and ok: "uncommittedRecords m = [] \<or> rid_less (last (uncommittedRecords m)) r"
    and s: "sorted_wrt rid_less (uncommittedRecords m)"
  shows "sorted_wrt rid_less (uncommittedRecords m')"
proof -
  from assms(1) have m': "uncommittedRecords m' = uncommittedRecords m @ [r]"
    by (auto simp add: addUncommittedRecord_inlock_def split: if_splits)
  from increasing_snoc[OF s ok] m' show ?thesis by simp
qed

lemma dealtWithCappedRecord_increasing:
  "sorted_wrt rid_less (uncommittedRecords m) \<Longrightarrow>
   sorted_wrt rid_less (uncommittedRecords (dealtWithCappedRecord oplog m it didCommit))"
  by (simp add: dealtWithCappedRecord_def Let_def increasing_remove1)

lemma CappedInsertChange_increasing:
  "sorted_wrt rid_less (uncommittedRecords m) \<Longrightarrow>
   sorted_wrt rid_less (uncommittedRecords (CappedInsertChange_commit oplog m it)) \<and>
   sorted_wrt rid_less (uncommittedRecords (CappedInsertChange_rollback oplog cb m it))"
  by (simp add: CappedInsertChange_commit_def CappedInsertChange_rollback_def Let_def
      dealtWithCappedRecord_increasing)

lemma journal_increasing:
  "sorted_wrt rid_less (uncommittedRecords m) \<Longrightarrow>
   sorted_wrt rid_less (uncommittedRecords (journal_publish cb ops m)) \<and>
   (journal_take m = JournalTakes ops' m' \<longrightarrow> sorted_wrt rid_less (uncommittedRecords m'))"
  by (auto simp add: journal_publish_def journal_take_def Let_def increasing_fold_remove1
      split: if_splits)

lemma highestSeen_increasing:
  "uncommittedRecords (updateHighestSeen m r) = uncommittedRecords m \<and>
   uncommittedRecords (setHighestSeen m r) = uncommittedRecords m"
  by (simp add: updateHighestSeen_def setHighestSeen_def)

lemma front_is_least:
  "sorted_wrt rid_less (x # xs) \<Longrightarrow> y \<in> set (x # xs) \<Longrightarrow> rid_le x y"
  by (auto simp add: rid_le_refl rid_less_imp_le)

lemma least_uncommitted_front:
  assumes "sorted_wrt rid_less (uncommittedRecords m)"
  shows "least_uncommitted m lo = (\<exists>xs. uncommittedRecords m = lo # xs)"
proof (cases "uncommittedRecords m")
  case Nil
  then show ?thesis by (simp add: least_uncommitted_def)
next
  case (Cons x xs)
  show ?thesis
  proof
    assume l: "least_uncommitted m lo"
    then have "lo \<in> set (x # xs)" and "rid_le lo x"
      using Cons by (auto simp add: least_uncommitted_def)
    moreover from this assms Cons have "rid_le x lo"
      using front_is_least[of x xs lo] by simp
    ultimately have "lo = x" by (simp add: rid_le_antisym)
    with Cons show "\<exists>xs. uncommittedRecords m = lo # xs" by simp
  next
    assume "\<exists>xs. uncommittedRecords m = lo # xs"
    with Cons have "lo = x" by simp
    with assms Cons show "least_uncommitted m lo"
      using front_is_least[of x xs] by (simp add: least_uncommitted_def)
  qed
qed


section \<open>The commit and rollback hooks\<close>

lemma increasing_distinct: "sorted_wrt rid_less xs \<Longrightarrow> distinct xs"
  by (induction xs) (auto simp add: rid_less_irrefl)

lemma erased_by_remove1: "sorted_wrt rid_less xs \<Longrightarrow> x \<notin> set (remove1 x xs)"
  using increasing_distinct[of xs] by simp

text \<open>
  C3, as the code has it. A commit on the oplog of an id that is not the highest seen one
  leaves the id among the uncommitted ones and appends it to \<open>_opsWaitingForJournal\<close>;
  \<open>_opsWaitingForJournalCV\<close> is notified exactly when nothing was waiting before. In every
  other case (not an oplog, the id is the highest seen one, or a rollback) the id is erased
  from the uncommitted ids at once, nothing is appended, and \<open>_opsBecameVisibleCV\<close> is
  notified; a rollback then notifies the capped callback when there is one.
\<close>

theorem dealtWithCappedRecord_hooks:
  "(oplog \<and> it \<noteq> oplog_highestSeen m \<longrightarrow>
      uncommittedRecords (CappedInsertChange_commit oplog m it) = uncommittedRecords m \<and>
      opsWaitingForJournal (CappedInsertChange_commit oplog m it) = opsWaitingForJournal m @ [it] \<and>
      notifications (CappedInsertChange_commit oplog m it) =
        notifications m @
          (if opsWaitingForJournal m = [] then [OpsWaitingForJournalCV_notify_one] else [])) \<and>
   (\<not> (oplog \<and> it \<noteq> oplog_highestSeen m) \<longrightarrow>
      uncommittedRecords (CappedInsertChange_commit oplog m it) = remove1 it (uncommittedRecords m) \<and>
      opsWaitingForJournal (CappedInsertChange_commit oplog m it) = opsWaitingForJournal m \<and>
      notifications (CappedInsertChange_commit oplog m it) =
        notifications m @ [OpsBecameVisibleCV_notify_all]) \<and>
   uncommittedRecords (CappedInsertChange_rollback oplog callback m it) =
     remove1 it (uncommittedRecords m) \<and>
   opsWaitingForJournal (CappedInsertChange_rollback oplog callback m it) = opsWaitingForJournal m \<and>
   notifications (CappedInsertChange_rollback oplog callback m it) =
     notifications m @ OpsBecameVisibleCV_notify_all #
       (if callback then [NotifyCappedWaitersIfNeeded] else []) \<and>
   (sorted_wrt rid_less (uncommittedRecords m) \<longrightarrow> it \<notin> set (remove1 it (uncommittedRecords m)))"
  by (simp add: CappedInsertChange_commit_def CappedInsertChange_rollback_def
      dealtWithCappedRecord_def Let_def erased_by_remove1)

text \<open>
  The example manager is what three registrations and the commit of 6 make of a new one.
\<close>

lemma example_manager_567_reached:
  "CappedInsertChange_commit True
     (example_manager [RecordId 5, RecordId 6, RecordId 7] (RecordId 7)) (RecordId 6) =
   example_manager_567"
  by (simp add: CappedInsertChange_commit_def dealtWithCappedRecord_def example_manager_def
      example_manager_567_def)

theorem dealtWithCappedRecord_hooks_witness:
  "sorted_wrt rid_less (uncommittedRecords example_manager_567) \<and>
   RecordId 7 = oplog_highestSeen example_manager_567 \<and>
   RecordId 5 \<noteq> oplog_highestSeen example_manager_567 \<and>
   uncommittedRecords (CappedInsertChange_commit True example_manager_567 (RecordId 5)) =
     [RecordId 5, RecordId 6, RecordId 7] \<and>
   opsWaitingForJournal (CappedInsertChange_commit True example_manager_567 (RecordId 5)) =
     [RecordId 6, RecordId 5] \<and>
   uncommittedRecords (CappedInsertChange_commit True example_manager_567 (RecordId 7)) =
     [RecordId 5, RecordId 6] \<and>
   notifications (CappedInsertChange_commit True example_manager_567 (RecordId 7)) =
     [OpsWaitingForJournalCV_notify_one, OpsBecameVisibleCV_notify_all] \<and>
   uncommittedRecords (CappedInsertChange_rollback True True example_manager_567 (RecordId 5)) =
     [RecordId 6, RecordId 7] \<and>
   notifications (CappedInsertChange_rollback True True example_manager_567 (RecordId 5)) =
     [OpsWaitingForJournalCV_notify_one, OpsBecameVisibleCV_notify_all,
      NotifyCappedWaitersIfNeeded]"
  using dealtWithCappedRecord_hooks[of True "RecordId 5" example_manager_567 True]
    dealtWithCappedRecord_hooks[of True "RecordId 7" example_manager_567 True]
  by (simp add: example_manager_567_def rid_less_def)

text \<open>
  C3 as stated fails where an operation is already waiting for the journal: the commit of 5
  is deferred, and \<open>_opsWaitingForJournalCV\<close> is not notified.
\<close>

theorem deferred_commit_without_signal_counterexample:
  "RecordId 5 \<noteq> oplog_highestSeen example_manager_567 \<and>
   opsWaitingForJournal (CappedInsertChange_commit True example_manager_567 (RecordId 5)) =
     opsWaitingForJournal example_manager_567 @ [RecordId 5] \<and>
   notifications (CappedInsertChange_commit True example_manager_567 (RecordId 5)) =
     notifications example_manager_567"
  by (simp add: CappedInsertChange_commit_def dealtWithCappedRecord_def example_manager_567_def)

section \<open>Waiting for the earlier oplog writes\<close>

lemma waitForConditionOrInterrupt_Returned:
  "waitForConditionOrInterrupt pred m evs = Returned m' \<Longrightarrow>
     pred m' \<and> (m' = m \<or> WakeUp m' \<in> set evs)"
proof (induction pred m evs rule: waitForConditionOrInterrupt.induct)
  case (1 pred m)
  then show ?case by (simp split: if_splits)
next
  case (2 pred m rest)
  then show ?case by (simp split: if_splits)
next
  case (3 pred m m1 rest)
  then show ?case by (auto split: if_splits)
qed

lemma waitForConditionOrInterrupt_at_once:
  "pred m \<Longrightarrow> waitForConditionOrInterrupt pred m evs = Returned m"
  by (cases "(pred, m, evs)" rule: waitForConditionOrInterrupt.cases) simp_all

lemma waitForConditionOrInterrupt_wakes:
  "pred m' \<Longrightarrow> Interrupt \<notin> set evs \<Longrightarrow>
     \<exists>m''. waitForConditionOrInterrupt pred m (evs @ WakeUp m' # rest) = Returned m''"
proof (induction evs arbitrary: m)
  case Nil
  then show ?case by (simp add: waitForConditionOrInterrupt_at_once)
next
  case (Cons ev evs)
  then show ?case by (cases ev) simp_all
qed

text \<open>
  C4. The value waited for is the highest seen id of the manager at entry. When the call
  returns, it returns on the entry state or on a state met at a wake-up; the uncommitted
  ids of that state are none, or their first one, which is their minimum, is above the
  value sampled at entry, whatever the highest seen id has become since.
\<close>

theorem waitForAllEarlierOplogWritesToBeVisible_returns:
  assumes "waitForAllEarlierOplogWritesToBeVisible lockIsNoop inUnitOfWork m evs = Inr (Returned m')"
  shows "(m' = m \<or> WakeUp m' \<in> set evs) \<and>
         (uncommittedRecords m' = [] \<or>
          (\<exists>front rest. uncommittedRecords m' = front # rest \<and>
                         rid_less (oplog_highestSeen m) front)) \<and>
         (sorted_wrt rid_less (uncommittedRecords m') \<longrightarrow>
            (\<forall>lo. least_uncommitted m' lo \<longrightarrow> rid_less (oplog_highestSeen m) lo))"
proof -
  let ?pred = "\<lambda>now. case uncommittedRecords now of
                       [] \<Rightarrow> True
                     | front # _ \<Rightarrow> rid_less (oplog_highestSeen m) front"
  from assms have "waitForConditionOrInterrupt ?pred m evs = Returned m'"
    by (simp add: waitForAllEarlierOplogWritesToBeVisible_def Let_def split: if_splits)
  from waitForConditionOrInterrupt_Returned[OF this]
  have p: "?pred m'" and w: "m' = m \<or> WakeUp m' \<in> set evs" by simp_all
  from p have front: "uncommittedRecords m' = [] \<or>
      (\<exists>front rest. uncommittedRecords m' = front # rest \<and> rid_less (oplog_highestSeen m) front)"
    by (cases "uncommittedRecords m'") simp_all
  have "rid_less (oplog_highestSeen m) lo"
    if s: "sorted_wrt rid_less (uncommittedRecords m')" and l: "least_uncommitted m' lo" for lo
    using front l by (auto simp add: least_uncommitted_front[OF s])
  with w front show ?thesis by blast
qed

theorem waitForAllEarlierOplogWritesToBeVisible_returns_witness:
  "waitForAllEarlierOplogWritesToBeVisible False False
     (example_manager [RecordId 5, RecordId 6] (RecordId 6))
     [WakeUp (example_manager [RecordId 6, RecordId 7] (RecordId 7)),
      WakeUp (example_manager [RecordId 7] (RecordId 7)),
      WakeUp (example_manager [] (RecordId 7))] =
     Inr (Returned (example_manager [RecordId 7] (RecordId 7))) \<and>
   sorted_wrt rid_less (uncommittedRecords (example_manager [RecordId 7] (RecordId 7))) \<and>
   least_uncommitted (example_manager [RecordId 7] (RecordId 7)) (RecordId 7) \<and>
   rid_less (oplog_highestSeen (example_manager [RecordId 5, RecordId 6] (RecordId 6))) (RecordId 7)"
proof -
  have r: "waitForAllEarlierOplogWritesToBeVisible False False
     (example_manager [RecordId 5, RecordId 6] (RecordId 6))
     [WakeUp (example_manager [RecordId 6, RecordId 7] (RecordId 7)),
      WakeUp (example_manager [RecordId 7] (RecordId 7)),
      WakeUp (example_manager [] (RecordId 7))] =
     Inr (Returned (example_manager [RecordId 7] (RecordId 7)))"
    by (simp add: waitForAllEarlierOplogWritesToBeVisible_def example_manager_def rid_less_def)
  have s: "sorted_wrt rid_less (uncommittedRecords (example_manager [RecordId 7] (RecordId 7)))"
    by (simp add: example_manager_def)
  have l: "least_uncommitted (example_manager [RecordId 7] (RecordId 7)) (RecordId 7)"
    by (simp add: least_uncommitted_def example_manager_def rid_le_def)
  from waitForAllEarlierOplogWritesToBeVisible_returns[OF r] s l
  have "rid_less (oplog_highestSeen (example_manager [RecordId 5, RecordId 6] (RecordId 6)))
          (RecordId 7)"
    by blast
  with r s l show ?thesis by simp
qed

section \<open>The visibility filter of the cursor\<close>

lemma curr_oplog_value:
  assumes "c_forward c" and "\<not> isNull (c_readUntilForOplog c)"
    and "c_iterator c = Some it" and "it_current it = Some (k, v)"
    and "makeRecordId k = Some loc"
  shows "curr (Some m) c =
           (if rid_less (c_readUntilForOplog c) loc \<or>
               (loc = c_readUntilForOplog c \<and> isCappedHidden m loc)
            then (Inr None, c\<lparr> c_eof := True, c_lastLoc := loc \<rparr>)
            else (Inr (Some (loc, v)), c\<lparr> c_eof := False, c_lastLoc := loc \<rparr>))"
  using assms by (auto simp add: curr_def Let_def)

text \<open>
  C1. A forward cursor that holds a read ceiling and whose manager is set (as it is for an
  oplog) stands on a record with id \<open>loc\<close>. Then \<open>curr()\<close> withholds the record, setting
  the end-of-file flag and returning nothing, exactly when \<open>loc\<close> is above the ceiling, or
  equals it and is capped-hidden at this moment; otherwise it returns the record; and it
  returns every record below the ceiling.
\<close>

theorem curr_oplog_read_ceiling:
  assumes "c_forward c" and "\<not> isNull (c_readUntilForOplog c)"
    and "c_iterator c = Some it" and "it_current it = Some (k, v)"
    and "makeRecordId k = Some loc"
  shows "((fst (curr (Some m) c) = Inr None \<and> c_eof (snd (curr (Some m) c))) =
           (rid_less (c_readUntilForOplog c) loc \<or>
            (loc = c_readUntilForOplog c \<and> isCappedHidden m loc)))
         \<and> (fst (curr (Some m) c) = Inr None \<or>
            (fst (curr (Some m) c) = Inr (Some (loc, v)) \<and> \<not> c_eof (snd (curr (Some m) c))))
         \<and> (rid_less loc (c_readUntilForOplog c) \<longrightarrow>
              fst (curr (Some m) c) = Inr (Some (loc, v)))"
proof -
  note v = curr_oplog_value[OF assms, of m]
  have below: "rid_less loc (c_readUntilForOplog c) \<Longrightarrow>
      \<not> (rid_less (c_readUntilForOplog c) loc \<or>
         (loc = c_readUntilForOplog c \<and> isCappedHidden m loc))"
    using rid_less_asym[of loc "c_readUntilForOplog c"] rid_less_irrefl[of loc] by auto
  show ?thesis
  proof (cases "rid_less (c_readUntilForOplog c) loc \<or>
                (loc = c_readUntilForOplog c \<and> isCappedHidden m loc)")
    case True
    with v below show ?thesis by auto
  next
    case False
    with v show ?thesis by simp
  qed
qed

lemma example_iterator_current:
  "it_current example_iterator_at_7 = Some (makeKey (RecordId 7), [12])"
  by (simp add: it_current_def example_iterator_at_7_def example_entries_def)

text \<open>
  The cursor stands on record 7 while 5 is uncommitted: with the ceiling 7 the record is
  withheld, with the ceiling 10 it is below the ceiling and returned.
\<close>

theorem curr_oplog_read_ceiling_witness:
  "c_forward (example_cursor (RecordId 7)) \<and>
   \<not> isNull (c_readUntilForOplog (example_cursor (RecordId 7))) \<and>
   c_iterator (example_cursor (RecordId 7)) = Some example_iterator_at_7 \<and>
   it_current example_iterator_at_7 = Some (makeKey (RecordId 7), [12]) \<and>
   makeRecordId (makeKey (RecordId 7)) = Some (RecordId 7) \<and>
   isCappedHidden (example_manager [RecordId 5] (RecordId 5)) (RecordId 7) \<and>
   fst (curr (Some (example_manager [RecordId 5] (RecordId 5))) (example_cursor (RecordId 7))) =
     Inr None \<and>
   c_eof (snd (curr (Some (example_manager [RecordId 5] (RecordId 5)))
                 (example_cursor (RecordId 7)))) \<and>
   c_forward (example_cursor (RecordId 10)) \<and>
   \<not> isNull (c_readUntilForOplog (example_cursor (RecordId 10))) \<and>
   c_iterator (example_cursor (RecordId 10)) = Some example_iterator_at_7 \<and>
   rid_less (RecordId 7) (c_readUntilForOplog (example_cursor (RecordId 10))) \<and>
   fst (curr (Some (example_manager [RecordId 5] (RecordId 5))) (example_cursor (RecordId 10))) =
     Inr (Some (RecordId 7, [12]))"
proof -
  have a: "c_forward (example_cursor (RecordId 7))"
    and b: "\<not> isNull (c_readUntilForOplog (example_cursor (RecordId 7)))"
    and c: "c_iterator (example_cursor (RecordId 7)) = Some example_iterator_at_7"
    and r: "c_readUntilForOplog (example_cursor (RecordId 7)) = RecordId 7"
    by (simp_all add: example_cursor_def isNull_def)
  have a': "c_forward (example_cursor (RecordId 10))"
    and b': "\<not> isNull (c_readUntilForOplog (example_cursor (RecordId 10)))"
    and c': "c_iterator (example_cursor (RecordId 10)) = Some example_iterator_at_7"
    and r': "rid_less (RecordId 7) (c_readUntilForOplog (example_cursor (RecordId 10)))"
    by (simp_all add: example_cursor_def isNull_def rid_less_def)
  have h: "isCappedHidden (example_manager [RecordId 5] (RecordId 5)) (RecordId 7)"
    by (simp add: isCappedHidden_def example_manager_def rid_le_def)
  from curr_oplog_read_ceiling[OF a b c example_iterator_current makeRecordId_makeKey,
      of "example_manager [RecordId 5] (RecordId 5)"] h r
  have withheld: "fst (curr (Some (example_manager [RecordId 5] (RecordId 5)))
               (example_cursor (RecordId 7))) = Inr None \<and>
        c_eof (snd (curr (Some (example_manager [RecordId 5] (RecordId 5)))
                      (example_cursor (RecordId 7))))"
    by simp
  from curr_oplog_read_ceiling[OF a' b' c' example_iterator_current makeRecordId_makeKey,
      of "example_manager [RecordId 5] (RecordId 5)"] r'
  have returned: "fst (curr (Some (example_manager [RecordId 5] (RecordId 5)))
               (example_cursor (RecordId 10))) = Inr (Some (RecordId 7, [12]))"
    by blast
  from a b c h a' b' c' r' withheld returned example_iterator_current makeRecordId_makeKey
  show ?thesis by simp
qed

text \<open>
  The ceiling is captured when the cursor is made and never changes: \<open>getCursor\<close> on an
  oplog stores \<open>oplogStartHack()\<close> in the recovery unit and the constructor copies it.
\<close>

lemma positionIterator_frame:
  "positionIterator c = Inr c' \<Longrightarrow>
     c_forward c' = c_forward c \<and> c_readUntilForOplog c' = c_readUntilForOplog c \<and>
     c_prefix c' = c_prefix c \<and> c_isCapped c' = c_isCapped c"
  by (auto simp add: positionIterator_def Let_def
      split: option.splits if_splits sum.splits prod.splits)

lemma iterator_frame:
  "iterator ru c = Inr c' \<Longrightarrow>
     c_forward c' = c_forward c \<and> c_readUntilForOplog c' = c_readUntilForOplog c \<and>
     c_prefix c' = c_prefix c \<and> c_isCapped c' = c_isCapped c"
  by (auto simp add: iterator_def Let_def dest!: positionIterator_frame
      split: option.splits if_splits)



lemma curr_frame:
  "c_forward (snd (curr manager c)) = c_forward c \<and>
   c_readUntilForOplog (snd (curr manager c)) = c_readUntilForOplog c"
  by (simp add: curr_def Let_def split: option.splits prod.splits)


lemma Cursor_next_frame:
  "c_forward (snd (Cursor_next manager ru c)) = c_forward c \<and>
   c_readUntilForOplog (snd (Cursor_next manager ru c)) = c_readUntilForOplog c"
  by (auto simp add: Cursor_next_def Let_def curr_frame dest!: iterator_frame
      split: sum.splits option.splits)

lemma seekExact_frame:
  "c_forward (snd (seekExact ru c rid)) = c_forward c \<and>
   c_readUntilForOplog (snd (seekExact ru c rid)) = c_readUntilForOplog c"
  by (simp add: seekExact_def Let_def split: get_status.splits)

section \<open>What a forward cursor emits while ids are uncommitted\<close>





subsection \<open>Ids registered in order\<close>






text \<open>
  In such a state a registration in order passes the \<open>dassert\<close> of
  \<open>_addUncommittedRecord_inlock\<close>: whether the check is compiled in makes no difference
  to a history in which ids are registered in order.
\<close>

lemma in_order_registration_passes_dassert:
  assumes s: "sorted_wrt rid_less (uncommittedRecords m)"
    and b: "\<forall>x \<in> set (uncommittedRecords m). rid_le x (oplog_highestSeen m)"
    and above: "rid_less (oplog_highestSeen m) r"
  shows "addUncommittedRecord_inlock m ru r =
           Inr (m\<lparr> uncommittedRecords := uncommittedRecords m @ [r], oplog_highestSeen := r \<rparr>,
                ru\<lparr> ru_changes := ru_changes ru @ [r] \<rparr>)"
proof -
  have "rid_less (last (uncommittedRecords m)) r" if "uncommittedRecords m \<noteq> []"
    using that b above rid_le_less_trans[of "last (uncommittedRecords m)" "oplog_highestSeen m" r]
    by simp
  then show ?thesis by (auto simp add: addUncommittedRecord_inlock_def)
qed





subsection \<open>The hidden records and the forward cursor\<close>










section \<open>Reading one record by its id\<close>

text \<open>
  C10. \<open>seekExact\<close> reads neither the visibility manager nor the read ceiling. When
  \<open>Get\<close> finds the key, the record and its payload are returned, the cursor stands on
  the id and is not at its end; when the key is absent, nothing is returned, the cursor is
  at its end, and no error is raised.
\<close>

theorem seekExact_bypasses_visibility:
  "(ru_Get ru (makePrefixedKey (c_prefix c) rid) = GetOK val \<longrightarrow>
      fst (seekExact ru c rid) = Inr (Some (rid, val)) \<and>
      \<not> c_eof (snd (seekExact ru c rid)) \<and> c_lastLoc (snd (seekExact ru c rid)) = rid) \<and>
   (ru_Get ru (makePrefixedKey (c_prefix c) rid) = GetNotFound \<longrightarrow>
      fst (seekExact ru c rid) = Inr None \<and> c_eof (snd (seekExact ru c rid)))"
  by (simp add: seekExact_def)

text \<open>
  Record 7 is capped-hidden (5 is uncommitted) and above the ceiling 5 of the cursor:
  \<open>curr()\<close> withholds it, \<open>seekExact\<close> returns it; the absent record 4 gives nothing.
\<close>

theorem seekExact_bypasses_visibility_witness:
  "ru_Get example_unit (makePrefixedKey (c_prefix (example_cursor (RecordId 5))) (RecordId 7)) =
     GetOK [12] \<and>
   isCappedHidden (example_manager [RecordId 5] (RecordId 5)) (RecordId 7) \<and>
   rid_less (c_readUntilForOplog (example_cursor (RecordId 5))) (RecordId 7) \<and>
   fst (curr (Some (example_manager [RecordId 5] (RecordId 5))) (example_cursor (RecordId 5))) =
     Inr None \<and>
   fst (seekExact example_unit (example_cursor (RecordId 5)) (RecordId 7)) =
     Inr (Some (RecordId 7, [12])) \<and>
   \<not> c_eof (snd (seekExact example_unit (example_cursor (RecordId 5)) (RecordId 7))) \<and>
   ru_Get example_unit (makePrefixedKey (c_prefix (example_cursor (RecordId 5))) (RecordId 4)) =
     GetNotFound \<and>
   fst (seekExact example_unit (example_cursor (RecordId 5)) (RecordId 4)) = Inr None \<and>
   c_eof (snd (seekExact example_unit (example_cursor (RecordId 5)) (RecordId 4)))"
proof -
  have g7: "ru_Get example_unit
              (makePrefixedKey (c_prefix (example_cursor (RecordId 5))) (RecordId 7)) = GetOK [12]"
    by (simp add: example_unit_def example_Get_def example_cursor_def makePrefixedKey_def
        makeKey_def nativeToBig_def)
  have g4: "ru_Get example_unit
              (makePrefixedKey (c_prefix (example_cursor (RecordId 5))) (RecordId 4)) = GetNotFound"
    by (simp add: example_unit_def example_Get_def example_cursor_def makePrefixedKey_def
        makeKey_def nativeToBig_def)
  have h: "isCappedHidden (example_manager [RecordId 5] (RecordId 5)) (RecordId 7)"
    by (simp add: isCappedHidden_def example_manager_def rid_le_def)
  have a: "rid_less (c_readUntilForOplog (example_cursor (RecordId 5))) (RecordId 7)"
    by (simp add: example_cursor_def rid_less_def)
  have w: "fst (curr (Some (example_manager [RecordId 5] (RecordId 5)))
                  (example_cursor (RecordId 5))) = Inr None"
    by (simp add: curr_def example_cursor_def example_iterator_at_7_def example_entries_def
        it_current_def makeRecordId_makeKey isNull_def rid_less_def)
  from seekExact_bypasses_visibility[of example_unit "example_cursor (RecordId 5)" "RecordId 7" "[12]"]
    seekExact_bypasses_visibility[of example_unit "example_cursor (RecordId 5)" "RecordId 4" "[]"]
    g7 g4 h a w
  show ?thesis by simp
qed

section \<open>The deletion pass\<close>

lemma cappedDeleteLoop_removed:
  assumes "cappedDeleteLoop env rs j so dc entries st = (ex, st', iter)"
    and "docsRemoved st = int (length (removed st))"
    and "length (removed st) \<le> 20000"
  shows "\<exists>ks. removed st' = removed st @ ks \<and> iter = drop (length ks) entries \<and>
              map (\<lambda>e. makeRecordId (fst e)) (take (length ks) entries) = map Some ks \<and>
              (\<forall>i<length ks. rid_less (ks ! i) j \<and>
                   \<not> isCappedHidden (de_manager env (hiddenCalls st + i)) (ks ! i)) \<and>
              batch st' = batch st @
                concat (map (\<lambda>r. Delete (makePrefixedKey (rs_prefix rs) r) #
                                  (if rs_isOplog rs then [deleteKey (rs_oplogKeyTracker rs) r]
                                   else [])) ks) \<and>
              length (removed st') \<le> 20000 \<and>
              (ex = LoopEnded \<longrightarrow> docsRemoved st' = int (length (removed st')))"
  using assms
proof (induction entries arbitrary: st)
  case Nil
  then show ?case by simp
next
  case (Cons e rest)
  obtain k v where e: "e = (k, v)" by (cases e)
  let ?go = "(sizeSaved st < so \<or> docsRemoved st < dc) \<and> docsRemoved st < 20000"
  let ?deleted = "\<lambda>newestOld.
      ?go \<and> makeRecordId k = Some newestOld \<and>
      \<not> isCappedHidden (de_manager env (hiddenCalls st)) newestOld \<and>
      \<not> rid_le j newestOld \<and> \<not> rs_shuttingDown rs \<and>
      de_registerWrite env (makePrefixedKey (rs_prefix rs) newestOld) \<and>
      (if rs_cappedCallback rs
       then de_aboutToDeleteCapped env newestOld (if rs_isOplog rs then emptyBson else v)
       else CallbackOK) = CallbackOK"
  show ?case
  proof (cases "\<exists>newestOld. ?deleted newestOld")
    case False
    with Cons.prems(1) e have "removed st' = removed st \<and> iter = e # rest \<and>
        batch st' = batch st \<and> (ex = LoopEnded \<longrightarrow> docsRemoved st' = docsRemoved st)"
      by (auto simp add: Let_def split: if_splits option.splits callback_result.splits)
    with Cons.prems(2,3) show ?thesis by simp
  next
    case True
    then obtain newestOld where d: "?deleted newestOld" by blast
    define st2 where "st2 =
      st\<lparr> hiddenCalls := Suc (hiddenCalls st), docsRemoved := docsRemoved st + 1,
          sizeSaved := sizeSaved st + (if rs_isOplog rs then decodeSize v else int (length v)),
          batch := batch st @ Delete (makePrefixedKey (rs_prefix rs) newestOld) #
                     (if rs_isOplog rs then [deleteKey (rs_oplogKeyTracker rs) newestOld] else []),
          removed := removed st @ [newestOld] \<rparr>"
    from d e have step: "cappedDeleteLoop env rs j so dc (e # rest) st =
        cappedDeleteLoop env rs j so dc rest st2"
      by (simp add: Let_def st2_def)
    with Cons.prems(1) have run: "cappedDeleteLoop env rs j so dc rest st2 = (ex, st', iter)"
      by simp
    from d Cons.prems(2) have inv: "docsRemoved st2 = int (length (removed st2))"
      and bound: "length (removed st2) \<le> 20000"
      by (simp_all add: st2_def)
    from Cons.IH[OF run inv bound] obtain ks where
      r: "removed st' = removed st2 @ ks" and i: "iter = drop (length ks) rest"
      and m: "map (\<lambda>e. makeRecordId (fst e)) (take (length ks) rest) = map Some ks"
      and a: "\<forall>i<length ks. rid_less (ks ! i) j \<and>
                 \<not> isCappedHidden (de_manager env (hiddenCalls st2 + i)) (ks ! i)"
      and b: "batch st' = batch st2 @
                concat (map (\<lambda>r. Delete (makePrefixedKey (rs_prefix rs) r) #
                                  (if rs_isOplog rs then [deleteKey (rs_oplogKeyTracker rs) r]
                                   else [])) ks)"
      and l: "length (removed st') \<le> 20000"
      and c: "ex = LoopEnded \<longrightarrow> docsRemoved st' = int (length (removed st'))"
      by blast
    have first: "rid_less newestOld j \<and>
        \<not> isCappedHidden (de_manager env (hiddenCalls st)) newestOld"
      using d by (simp add: rid_le_less)
    have each: "rid_less ((newestOld # ks) ! i) j \<and>
        \<not> isCappedHidden (de_manager env (hiddenCalls st + i)) ((newestOld # ks) ! i)"
      if "i < length (newestOld # ks)" for i
    proof (cases i)
      case 0
      with first show ?thesis by simp
    next
      case (Suc n)
      with that a show ?thesis by (simp add: st2_def)
    qed
    have "removed st' = removed st @ (newestOld # ks)"
      using r by (simp add: st2_def)
    moreover have "iter = drop (length (newestOld # ks)) (e # rest)"
      using i by simp
    moreover have "map (\<lambda>e. makeRecordId (fst e)) (take (length (newestOld # ks)) (e # rest)) =
        map Some (newestOld # ks)"
      using m d e by simp
    moreover have "batch st' = batch st @
        concat (map (\<lambda>r. Delete (makePrefixedKey (rs_prefix rs) r) #
                          (if rs_isOplog rs then [deleteKey (rs_oplogKeyTracker rs) r]
                           else [])) (newestOld # ks))"
      using b by (simp add: st2_def)
    ultimately show ?thesis using each l c by blast
  qed
qed

text \<open>
  C6. The ids whose deletion a pass stages are the ids of the first entries the iterator
  meets, in order, and there are at most 20,000 of them. Each is below \<open>justInserted\<close>
  and was not capped-hidden when the pass examined it (the i-th one at the i-th call of
  \<open>isCappedHidden\<close>). Hence the pass stops at the first entry whose id is at or above
  \<open>justInserted\<close> or is hidden when examined: neither that entry nor a later one is
  removed. What \<open>cappedDeleteAsNeeded_inlock\<close> commits to the engine is nothing or the
  deletions of exactly these ids.
\<close>

theorem deletion_pass_stops:
  assumes "deletion_pass env rs ru justInserted = (ex, st, iter)"
  shows "length (removed st) \<le> 20000 \<and>
         (\<forall>i<length (removed st).
             rid_less (removed st ! i) justInserted \<and>
             \<not> isCappedHidden (de_manager env i) (removed st ! i)) \<and>
         map (\<lambda>e. makeRecordId (fst e)) (take (length (removed st)) (pass_start env rs)) =
           map Some (removed st) \<and>
         iter = drop (length (removed st)) (pass_start env rs) \<and>
         (\<forall>i<length (pass_start env rs). \<forall>r.
             makeRecordId (fst (pass_start env rs ! i)) = Some r \<and>
             (rid_le justInserted r \<or> isCappedHidden (de_manager env i) r) \<longrightarrow>
               length (removed st) \<le> i) \<and>
         batch st =
           concat (map (\<lambda>r. Delete (makePrefixedKey (rs_prefix rs) r) #
                             (if rs_isOplog rs then [deleteKey (rs_oplogKeyTracker rs) r]
                              else [])) (removed st)) \<and>
         (rs_db (snd (cappedDeleteAsNeeded_inlock env rs ru justInserted)) = rs_db rs \<or>
          rs_db (snd (cappedDeleteAsNeeded_inlock env rs ru justInserted)) = rs_db rs @ batch st)"
proof -
  let ?st0 = "\<lparr> docsRemoved = 0, sizeSaved = 0, batch = [], removed = [], hiddenCalls = 0 \<rparr>"
  from assms have run: "cappedDeleteLoop env rs justInserted (sizeOverCap_of rs ru)
      (docsOverCap_of rs ru) (pass_start env rs) ?st0 = (ex, st, iter)"
    by (simp add: deletion_pass_def)
  from cappedDeleteLoop_removed[OF run] obtain ks where
    r: "removed st = ks" and i: "iter = drop (length ks) (pass_start env rs)"
    and m: "map (\<lambda>e. makeRecordId (fst e)) (take (length ks) (pass_start env rs)) = map Some ks"
    and a: "\<forall>i<length ks. rid_less (ks ! i) justInserted \<and>
               \<not> isCappedHidden (de_manager env i) (ks ! i)"
    and b: "batch st =
              concat (map (\<lambda>r. Delete (makePrefixedKey (rs_prefix rs) r) #
                                (if rs_isOplog rs then [deleteKey (rs_oplogKeyTracker rs) r]
                                 else [])) ks)"
    and l: "length (removed st) \<le> 20000"
    by auto
  have stop: "length ks \<le> i"
    if "i < length (pass_start env rs)"
      and "makeRecordId (fst (pass_start env rs ! i)) = Some r"
      and "rid_le justInserted r \<or> isCappedHidden (de_manager env i) r" for i r
  proof (rule ccontr)
    assume "\<not> length ks \<le> i"
    then have lt: "i < length ks" by simp
    from m have "map (\<lambda>e. makeRecordId (fst e)) (take (length ks) (pass_start env rs)) ! i =
        map Some ks ! i" by simp
    with lt that(1,2) have "ks ! i = r" by simp
    with a lt that(3) show False by (auto simp add: rid_le_less)
  qed
  have db: "rs_db (snd (cappedDeleteAsNeeded_inlock env rs ru justInserted)) = rs_db rs \<or>
      rs_db (snd (cappedDeleteAsNeeded_inlock env rs ru justInserted)) = rs_db rs @ batch st"
    using assms
    by (auto simp add: cappedDeleteAsNeeded_inlock_def Let_def
        split: loop_exit.splits error.splits list.splits option.splits if_splits)
  from r i m a b l stop db show ?thesis by blast
qed

lemma example_pass_start:
  "pass_start example_env example_capped =
     [(makeKey (RecordId 1), [1, 1]), (makeKey (RecordId 2), [2, 2]),
      (makeKey (RecordId 4), [4, 4])]"
  by (simp add: pass_start_def example_env_def example_capped_def makeKey_def nativeToBig_less)

lemma example_deletion_pass:
  "deletion_pass example_env example_capped example_unit (RecordId 5) =
     (LoopEnded,
      \<lparr> docsRemoved = 2, sizeSaved = 4,
        batch = [Delete (makePrefixedKey [80] (RecordId 1)),
                 Delete (makePrefixedKey [80] (RecordId 2))],
        removed = [RecordId 1, RecordId 2], hiddenCalls = 3 \<rparr>,
      [(makeKey (RecordId 4), [4, 4])])"
  by (simp only: deletion_pass_def example_pass_start)
    (simp add: makeRecordId_makeKey sizeOverCap_of_def docsOverCap_of_def example_capped_def
      example_unit_def example_env_def example_manager_def isCappedHidden_def rid_le_def
      word_sle_eq Let_def)

theorem deletion_pass_stops_witness:
  "deletion_pass example_env example_capped example_unit (RecordId 5) =
     (LoopEnded,
      \<lparr> docsRemoved = 2, sizeSaved = 4,
        batch = [Delete (makePrefixedKey [80] (RecordId 1)),
                 Delete (makePrefixedKey [80] (RecordId 2))],
        removed = [RecordId 1, RecordId 2], hiddenCalls = 3 \<rparr>,
      [(makeKey (RecordId 4), [4, 4])]) \<and>
   rid_less (RecordId 1) (RecordId 5) \<and> rid_less (RecordId 2) (RecordId 5) \<and>
   \<not> isCappedHidden (de_manager example_env 0) (RecordId 1) \<and>
   \<not> isCappedHidden (de_manager example_env 1) (RecordId 2) \<and>
   2 < length (pass_start example_env example_capped) \<and>
   makeRecordId (fst (pass_start example_env example_capped ! 2)) = Some (RecordId 4) \<and>
   isCappedHidden (de_manager example_env 2) (RecordId 4) \<and>
   rs_db (snd (cappedDeleteAsNeeded_inlock example_env example_capped example_unit (RecordId 5))) =
     [Delete (makePrefixedKey [80] (RecordId 1)), Delete (makePrefixedKey [80] (RecordId 2))]"
proof -
  from deletion_pass_stops[OF example_deletion_pass]
  have q: "\<forall>i<length [RecordId 1, RecordId 2].
      rid_less ([RecordId 1, RecordId 2] ! i) (RecordId 5) \<and>
      \<not> isCappedHidden (de_manager example_env i) ([RecordId 1, RecordId 2] ! i)"
    by simp
  from q[rule_format, of 0]
  have "rid_less (RecordId 1) (RecordId 5) \<and>
      \<not> isCappedHidden (de_manager example_env 0) (RecordId 1)"
    by simp
  moreover from q[rule_format, of "Suc 0"]
  have "rid_less (RecordId 2) (RecordId 5) \<and>
      \<not> isCappedHidden (de_manager example_env 1) (RecordId 2)"
    by simp
  moreover have "2 < length (pass_start example_env example_capped)"
    and "makeRecordId (fst (pass_start example_env example_capped ! 2)) = Some (RecordId 4)"
    by (simp_all add: example_pass_start makeRecordId_makeKey)
  moreover have "isCappedHidden (de_manager example_env 2) (RecordId 4)"
    by (simp add: example_env_def example_manager_def isCappedHidden_def rid_le_def)
  moreover have "rs_db (snd (cappedDeleteAsNeeded_inlock example_env example_capped
                               example_unit (RecordId 5))) =
      [Delete (makePrefixedKey [80] (RecordId 1)), Delete (makePrefixedKey [80] (RecordId 2))]"
    by (simp add: cappedDeleteAsNeeded_inlock_def example_deletion_pass makeRecordId_makeKey)
      (simp add: example_capped_def example_env_def example_manager_def isCappedHidden_def
        rid_le_def word_sle_eq)
  ultimately show ?thesis using example_deletion_pass by simp
qed

section \<open>The foreground call beside a background deleter\<close>

lemma RocksRecordStore_new_slack:
  "RocksRecordStore_new nextPrefix pfx capped maxSize maxDocs callback oplogNs lastKey
       loadedNumRecords loadedDataSize backgroundThread = Inr rs \<Longrightarrow>
     rs_cappedMaxSizeSlack rs = cappedMaxSizeSlackFromSize (rs_cappedMaxSize rs)"
  by (auto simp add: RocksRecordStore_new_def Let_def split: if_splits option.splits)

lemma updateCappedSize_slack:
  "rs_cappedMaxSizeSlack rs = cappedMaxSizeSlackFromSize (rs_cappedMaxSize rs) \<Longrightarrow>
     rs_cappedMaxSizeSlack (updateCappedSize rs cappedSize) =
       cappedMaxSizeSlackFromSize (rs_cappedMaxSize (updateCappedSize rs cappedSize))"
  by (simp add: updateCappedSize_def)

text \<open>
  C8. The collection is capped, has no document limit, and a background deleter thread
  exists; the slack field holds \<open>min(maxSize / 10, 16 MiB)\<close>, as the constructor and
  \<open>updateCappedSize\<close> set it. Then \<open>cappedDeleteAsNeeded\<close> returns 0 and leaves the
  store as it is (no record is deleted, the counters keep their values). It makes no call
  on the deleter mutex when \<open>dataSize - cappedMaxSize\<close> is below the slack; otherwise it
  makes at most one \<open>try_lock\<close> and, after a failed one, one \<open>try_lock_for\<close> of 200 ms.
\<close>

theorem cappedDeleteAsNeeded_beside_background_thread:
  assumes "rs_isCapped rs" and "rs_cappedMaxDocs rs = - 1" and "rs_hasBackgroundThread rs"
    and "rs_cappedMaxSizeSlack rs = cappedMaxSizeSlackFromSize (rs_cappedMaxSize rs)"
  shows "fst (cappedDeleteAsNeeded env rs ru justInserted) = Inr 0 \<and>
         fst (snd (cappedDeleteAsNeeded env rs ru justInserted)) = rs \<and>
         (rs_dataSize rs - rs_cappedMaxSize rs < min (rs_cappedMaxSize rs sdiv 10) (16 * 1024 * 1024)
            \<longrightarrow> snd (snd (cappedDeleteAsNeeded env rs ru justInserted)) = []) \<and>
         snd (snd (cappedDeleteAsNeeded env rs ru justInserted)) \<in>
           {[], [Try_lock True], [Try_lock False, Try_lock_for 200 False],
            [Try_lock False, Try_lock_for 200 True]}"
  using assms
  by (cases "de_try_lock_for env")
    (simp_all add: cappedDeleteAsNeeded_def cappedAndNeedDelete_def
      cappedMaxSizeSlackFromSize_def Let_def)

theorem cappedDeleteAsNeeded_beside_background_thread_witness:
  "rs_isCapped (example_capped\<lparr> rs_hasBackgroundThread := True \<rparr>) \<and>
   rs_cappedMaxDocs (example_capped\<lparr> rs_hasBackgroundThread := True \<rparr>) = - 1 \<and>
   rs_hasBackgroundThread (example_capped\<lparr> rs_hasBackgroundThread := True \<rparr>) \<and>
   rs_cappedMaxSizeSlack (example_capped\<lparr> rs_hasBackgroundThread := True \<rparr>) =
     cappedMaxSizeSlackFromSize (rs_cappedMaxSize (example_capped\<lparr> rs_hasBackgroundThread := True \<rparr>)) \<and>
   cappedDeleteAsNeeded example_env (example_capped\<lparr> rs_hasBackgroundThread := True \<rparr>)
       example_unit (RecordId 5) =
     (Inr 0, example_capped\<lparr> rs_hasBackgroundThread := True \<rparr>,
      [Try_lock False, Try_lock_for 200 True]) \<and>
   rs_dataSize (example_oplog\<lparr> rs_hasBackgroundThread := True, rs_dataSize := 1050 \<rparr>) -
     rs_cappedMaxSize (example_oplog\<lparr> rs_hasBackgroundThread := True, rs_dataSize := 1050 \<rparr>)
     < min (rs_cappedMaxSize (example_oplog\<lparr> rs_hasBackgroundThread := True,
                                              rs_dataSize := 1050 \<rparr>) sdiv 10)
           (16 * 1024 * 1024) \<and>
   cappedDeleteAsNeeded example_env
       (example_oplog\<lparr> rs_hasBackgroundThread := True, rs_dataSize := 1050 \<rparr>)
       example_unit (RecordId 11) =
     (Inr 0, example_oplog\<lparr> rs_hasBackgroundThread := True, rs_dataSize := 1050 \<rparr>, [])"
proof -
  let ?a = "example_capped\<lparr> rs_hasBackgroundThread := True \<rparr>"
  let ?b = "example_oplog\<lparr> rs_hasBackgroundThread := True, rs_dataSize := 1050 \<rparr>"
  have a: "rs_isCapped ?a" "rs_cappedMaxDocs ?a = - 1" "rs_hasBackgroundThread ?a"
    "rs_cappedMaxSizeSlack ?a = cappedMaxSizeSlackFromSize (rs_cappedMaxSize ?a)"
    by (simp_all add: example_capped_def cappedMaxSizeSlackFromSize_def)
  have b: "rs_isCapped ?b" "rs_cappedMaxDocs ?b = - 1" "rs_hasBackgroundThread ?b"
    "rs_cappedMaxSizeSlack ?b = cappedMaxSizeSlackFromSize (rs_cappedMaxSize ?b)"
    by (simp_all add: example_oplog_def cappedMaxSizeSlackFromSize_def)
  have below: "rs_dataSize ?b - rs_cappedMaxSize ?b
      < min (rs_cappedMaxSize ?b sdiv 10) (16 * 1024 * 1024)"
    by (simp add: example_oplog_def)
  have calls: "snd (snd (cappedDeleteAsNeeded example_env ?a example_unit (RecordId 5))) =
      [Try_lock False, Try_lock_for 200 True]"
    by (simp add: cappedDeleteAsNeeded_def cappedAndNeedDelete_def example_capped_def
        example_env_def example_unit_def)
  from cappedDeleteAsNeeded_beside_background_thread[OF a, of example_env example_unit "RecordId 5"]
    calls
  have ra: "cappedDeleteAsNeeded example_env ?a example_unit (RecordId 5) =
      (Inr 0, ?a, [Try_lock False, Try_lock_for 200 True])"
    by (simp add: prod_eq_iff)
  from cappedDeleteAsNeeded_beside_background_thread[OF b, of example_env example_unit "RecordId 11"]
    below
  have rb: "cappedDeleteAsNeeded example_env ?b example_unit (RecordId 11) = (Inr 0, ?b, [])"
    by (simp add: prod_eq_iff)
  from a below ra rb show ?thesis by simp
qed

section \<open>Inserting\<close>

text \<open>
  C5. An insert into a capped collection of a payload longer than \<open>cappedMaxSize\<close>
  fails with \<open>BadValue\<close> and changes neither the store nor the recovery unit: nothing is
  staged in the write batch, \<open>_nextIdNum\<close> and the uncommitted ids are as before, and so
  are both counters and both counter deltas.
\<close>

theorem insertRecord_exceeds_cappedMaxSize:
  assumes "rs_isCapped rs" and "int (length data) > rs_cappedMaxSize rs"
  shows "insertRecord extractKey env rs ru data = (Inl BadValue, rs, ru)"
  using assms by (simp add: insertRecord_def Let_def)

theorem insertRecord_exceeds_cappedMaxSize_witness:
  "rs_isCapped example_capped \<and> int (length [1, 2, 3, 4 :: byte]) > rs_cappedMaxSize example_capped \<and>
   insertRecord example_extractKey example_env example_capped example_unit [1, 2, 3, 4] =
     (Inl BadValue, example_capped, example_unit)"
proof -
  have a: "rs_isCapped example_capped"
    and b: "int (length [1, 2, 3, 4 :: byte]) > rs_cappedMaxSize example_capped"
    by (simp_all add: example_capped_def)
  from insertRecord_exceeds_cappedMaxSize[OF a b] a b show ?thesis by simp
qed

lemma cappedDeleteAsNeeded_inlock_frame:
  "rs_cappedVisibilityManager (snd (cappedDeleteAsNeeded_inlock env rs ru j)) =
     rs_cappedVisibilityManager rs \<and>
   rs_nextIdNum (snd (cappedDeleteAsNeeded_inlock env rs ru j)) = rs_nextIdNum rs"
  by (simp add: cappedDeleteAsNeeded_inlock_def Let_def
      split: prod.splits loop_exit.splits error.splits list.splits option.splits)

lemma cappedDeleteAsNeeded_store:
  "fst (snd (cappedDeleteAsNeeded env rs ru j)) = rs \<or>
   fst (snd (cappedDeleteAsNeeded env rs ru j)) = snd (cappedDeleteAsNeeded_inlock env rs ru j)"
  by (auto simp add: cappedDeleteAsNeeded_def Let_def split: sum.splits bool.splits prod.splits)

lemma cappedDeleteAsNeeded_frame:
  "rs_cappedVisibilityManager (fst (snd (cappedDeleteAsNeeded env rs ru j))) =
     rs_cappedVisibilityManager rs \<and>
   rs_nextIdNum (fst (snd (cappedDeleteAsNeeded env rs ru j))) = rs_nextIdNum rs"
  using cappedDeleteAsNeeded_inlock_frame[of env rs ru j] cappedDeleteAsNeeded_store[of env rs ru j]
  by auto

lemma updateHighestSeen_fields:
  "uncommittedRecords (updateHighestSeen m loc) = uncommittedRecords m \<and>
   opsWaitingForJournal (updateHighestSeen m loc) = opsWaitingForJournal m \<and>
   \<not> rid_less (oplog_highestSeen (updateHighestSeen m loc)) loc"
  by (simp add: updateHighestSeen_def rid_less_irrefl)

text \<open>
  C7, as the code has it. \<open>insertRecord\<close> on an oplog takes the id from the payload with
  \<open>oploghack::extractKey\<close>. When that fails, the status is returned and nothing has
  changed. Otherwise the store raises the highest seen id to the id where it was below, and
  stages the \<open>Put\<close> of the record and of its tracker entry; it does not add the id to
  the uncommitted ids and registers no change with the recovery unit. The id becomes
  uncommitted only through \<open>oplogDiskLocRegister\<close>, a call of its own, which appends the
  id of the given timestamp, sets the highest seen id to it and registers the change.
\<close>

theorem insertRecord_oplog_highestSeen_only:
  assumes "rs_isOplog rs" and "rs_cappedVisibilityManager rs = Some m"
    and "\<not> (rs_isCapped rs \<and> int (length data) > rs_cappedMaxSize rs)"
  shows "(\<forall>e. extractKey data = Inl e \<longrightarrow>
            insertRecord extractKey env rs ru data = (Inl e, rs, ru)) \<and>
         (\<forall>loc. extractKey data = Inr loc \<longrightarrow>
            rs_cappedVisibilityManager (fst (snd (insertRecord extractKey env rs ru data))) =
              Some (updateHighestSeen m loc) \<and>
            uncommittedRecords (updateHighestSeen m loc) = uncommittedRecords m \<and>
            \<not> rid_less (oplog_highestSeen (updateHighestSeen m loc)) loc \<and>
            ru_changes (snd (snd (insertRecord extractKey env rs ru data))) = ru_changes ru \<and>
            ru_writeBatch (snd (snd (insertRecord extractKey env rs ru data))) =
              ru_writeBatch ru @
                [Put (makePrefixedKey (rs_prefix rs) loc) data,
                 insertKey (rs_oplogKeyTracker rs) loc (int (length data))] \<and>
            (fst (insertRecord extractKey env rs ru data) = Inr loc \<or>
             isl (fst (insertRecord extractKey env rs ru data)))) \<and>
         (\<forall>record. keyForOptime opTime = Inr record \<and>
              (uncommittedRecords m = [] \<or> rid_less (last (uncommittedRecords m)) record) \<longrightarrow>
            oplogDiskLocRegister keyForOptime rs ru opTime =
              (Inr (),
               rs\<lparr> rs_cappedVisibilityManager :=
                     Some (m\<lparr> uncommittedRecords := uncommittedRecords m @ [record],
                              oplog_highestSeen := record \<rparr>) \<rparr>,
               ru\<lparr> ru_changes := ru_changes ru @ [record] \<rparr>))"
proof -
  have failed: "insertRecord extractKey env rs ru data = (Inl e, rs, ru)"
    if "extractKey data = Inl e" for e
    using that assms by (auto simp add: insertRecord_def allocateRecordId_def Let_def)
  have inserted:
    "rs_cappedVisibilityManager (fst (snd (insertRecord extractKey env rs ru data))) =
       Some (updateHighestSeen m loc) \<and>
     ru_changes (snd (snd (insertRecord extractKey env rs ru data))) = ru_changes ru \<and>
     ru_writeBatch (snd (snd (insertRecord extractKey env rs ru data))) =
       ru_writeBatch ru @
         [Put (makePrefixedKey (rs_prefix rs) loc) data,
          insertKey (rs_oplogKeyTracker rs) loc (int (length data))] \<and>
     (fst (insertRecord extractKey env rs ru data) = Inr loc \<or>
      isl (fst (insertRecord extractKey env rs ru data)))"
    if "extractKey data = Inr loc" for loc
  proof -
    let ?rs1 = "rs\<lparr> rs_cappedVisibilityManager := Some (updateHighestSeen m loc) \<rparr>"
    let ?ru2 = "ru\<lparr> ru_writeBatch := ru_writeBatch ru @
                       Put (makePrefixedKey (rs_prefix rs) loc) data #
                       [insertKey (rs_oplogKeyTracker rs) loc (int (length data))],
                     ru_deltaNumRecords := ru_deltaNumRecords ru + 1,
                     ru_deltaDataSize := ru_deltaDataSize ru + int (length data) \<rparr>"
    obtain res rs2 calls where d: "cappedDeleteAsNeeded env ?rs1 ?ru2 loc = (res, rs2, calls)"
      by (cases "cappedDeleteAsNeeded env ?rs1 ?ru2 loc")
    from cappedDeleteAsNeeded_frame[of env ?rs1 ?ru2 loc] d
    have m2: "rs_cappedVisibilityManager rs2 = Some (updateHighestSeen m loc)" by simp
    from that assms d have
      "insertRecord extractKey env rs ru data =
         ((case res of Inl e \<Rightarrow> Inl e | Inr n \<Rightarrow> Inr loc), rs2, ?ru2)"
      by (auto simp add: insertRecord_def allocateRecordId_def Let_def split: sum.splits)
    with m2 show ?thesis by (cases res) simp_all
  qed
  have registered: "oplogDiskLocRegister keyForOptime rs ru opTime =
      (Inr (),
       rs\<lparr> rs_cappedVisibilityManager :=
             Some (m\<lparr> uncommittedRecords := uncommittedRecords m @ [r],
                      oplog_highestSeen := r \<rparr>) \<rparr>,
       ru\<lparr> ru_changes := ru_changes ru @ [r] \<rparr>)"
    if "keyForOptime opTime = Inr r"
      and "uncommittedRecords m = [] \<or> rid_less (last (uncommittedRecords m)) r" for r
    using that assms
    by (auto simp add: oplogDiskLocRegister_def addUncommittedRecord_def
        addUncommittedRecord_inlock_def)
  from failed inserted registered updateHighestSeen_fields show ?thesis by blast
qed

lemma example_insert_11:
  "insertRecord example_extractKey example_env example_oplog example_unit [11, 0] =
     (Inr (RecordId 11),
      example_oplog\<lparr> rs_cappedVisibilityManager := Some (example_manager [] (RecordId 11)) \<rparr>,
      example_unit\<lparr> ru_writeBatch := [Put (makePrefixedKey [80] (RecordId 11)) [11, 0],
                                      insertKey [81] (RecordId 11) 2],
                     ru_deltaNumRecords := 1, ru_deltaDataSize := 2 \<rparr>)"
  by (simp add: insertRecord_def allocateRecordId_def example_extractKey_def
      cappedDeleteAsNeeded_def cappedAndNeedDelete_def updateHighestSeen_def
      example_oplog_def example_unit_def example_manager_def rid_less_def Let_def)

theorem insertRecord_oplog_highestSeen_only_witness:
  "rs_isOplog example_oplog \<and>
   rs_cappedVisibilityManager example_oplog = Some (example_manager [] (RecordId 10)) \<and>
   \<not> (rs_isCapped example_oplog \<and> int (length [11, 0 :: byte]) > rs_cappedMaxSize example_oplog) \<and>
   example_extractKey [11, 0] = Inr (RecordId 11) \<and>
   example_keyForOptime 11 = Inr (RecordId 11) \<and>
   fst (insertRecord example_extractKey example_env example_oplog example_unit [11, 0]) =
     Inr (RecordId 11) \<and>
   rs_cappedVisibilityManager
       (fst (snd (insertRecord example_extractKey example_env example_oplog example_unit [11, 0]))) =
     Some (example_manager [] (RecordId 11)) \<and>
   ru_changes (snd (snd (insertRecord example_extractKey example_env example_oplog
                           example_unit [11, 0]))) = [] \<and>
   oplogDiskLocRegister example_keyForOptime example_oplog example_unit 11 =
     (Inr (),
      example_oplog\<lparr> rs_cappedVisibilityManager :=
                       Some (example_manager [RecordId 11] (RecordId 11)) \<rparr>,
      example_unit\<lparr> ru_changes := [RecordId 11] \<rparr>) \<and>
   \<not> (rs_isCapped example_oplog \<and> int (length ([] :: bytes)) > rs_cappedMaxSize example_oplog) \<and>
   example_extractKey [] = Inl (OtherStatus 2) \<and>
   insertRecord example_extractKey example_env example_oplog example_unit [] =
     (Inl (OtherStatus 2), example_oplog, example_unit)"
proof -
  have a: "rs_isOplog example_oplog"
    and b: "rs_cappedVisibilityManager example_oplog = Some (example_manager [] (RecordId 10))"
    and c: "\<not> (rs_isCapped example_oplog \<and>
               int (length [11, 0 :: byte]) > rs_cappedMaxSize example_oplog)"
    by (simp_all add: example_oplog_def)
  have x: "example_extractKey [11, 0] = Inr (RecordId 11)"
    by (simp add: example_extractKey_def)
  have k: "example_keyForOptime 11 = Inr (RecordId 11)"
    by (simp add: example_keyForOptime_def)
  have u: "updateHighestSeen (example_manager [] (RecordId 10)) (RecordId 11) =
      example_manager [] (RecordId 11)"
    by (simp add: updateHighestSeen_def example_manager_def rid_less_def)
  have e: "uncommittedRecords (example_manager [] (RecordId 10)) = []"
    and n: "ru_changes example_unit = []"
    by (simp_all add: example_manager_def example_unit_def)
  have ext: "example_manager [] (RecordId 10)
      \<lparr> uncommittedRecords := uncommittedRecords (example_manager [] (RecordId 10)) @ [RecordId 11],
        oplog_highestSeen := RecordId 11 \<rparr> = example_manager [RecordId 11] (RecordId 11)"
    by (simp add: example_manager_def)
  note t = insertRecord_oplog_highestSeen_only[OF a b c,
      of example_extractKey example_env example_unit example_keyForOptime 11]
  from t x u n have i: "rs_cappedVisibilityManager
       (fst (snd (insertRecord example_extractKey example_env example_oplog example_unit [11, 0]))) =
     Some (example_manager [] (RecordId 11)) \<and>
     ru_changes (snd (snd (insertRecord example_extractKey example_env example_oplog
                           example_unit [11, 0]))) = []"
    by simp
  from t k e ext n have r: "oplogDiskLocRegister example_keyForOptime example_oplog example_unit 11 =
     (Inr (),
      example_oplog\<lparr> rs_cappedVisibilityManager :=
                       Some (example_manager [RecordId 11] (RecordId 11)) \<rparr>,
      example_unit\<lparr> ru_changes := [RecordId 11] \<rparr>)"
    by simp
  have c0: "\<not> (rs_isCapped example_oplog \<and>
               int (length ([] :: bytes)) > rs_cappedMaxSize example_oplog)"
    by (simp add: example_oplog_def)
  have x0: "example_extractKey [] = Inl (OtherStatus 2)"
    by (simp add: example_extractKey_def)
  from insertRecord_oplog_highestSeen_only[OF a b c0,
      of example_extractKey example_env example_unit example_keyForOptime 11] x0
  have i0: "insertRecord example_extractKey example_env example_oplog example_unit [] =
      (Inl (OtherStatus 2), example_oplog, example_unit)"
    by blast
  from a b c x k i r c0 x0 i0 example_insert_11 show ?thesis by simp
qed

text \<open>
  C7 as stated fails: after the insert of the entry with id 11 into the oplog the record is
  staged and the highest seen id is 11, but no id is uncommitted and no change is
  registered.
\<close>

theorem insertRecord_oplog_not_uncommitted_counterexample:
  "insertRecord example_extractKey example_env example_oplog example_unit [11, 0] =
     (Inr (RecordId 11),
      example_oplog\<lparr> rs_cappedVisibilityManager := Some (example_manager [] (RecordId 11)) \<rparr>,
      example_unit\<lparr> ru_writeBatch := [Put (makePrefixedKey [80] (RecordId 11)) [11, 0],
                                      insertKey [81] (RecordId 11) 2],
                     ru_deltaNumRecords := 1, ru_deltaDataSize := 2 \<rparr>) \<and>
   RecordId 11 \<notin> set (uncommittedRecords (example_manager [] (RecordId 11))) \<and>
   \<not> isCappedHidden (example_manager [] (RecordId 11)) (RecordId 11)"
  by (simp add: insertRecord_def allocateRecordId_def example_extractKey_def
      cappedDeleteAsNeeded_def cappedAndNeedDelete_def updateHighestSeen_def
      example_oplog_def example_unit_def example_manager_def rid_less_def isCappedHidden_def
      Let_def)


end
